theory Spec2Isabelle
  imports Complex_Main
begin

section \<open>Shared vocabulary: results, toasts, timers\<close>

text \<open>
  The frontend reports to the user through a React state \<open>uploadResult = {type, message}\<close>,
  through toasts and through delayed navigation. The model records what a handler does as
  a list of effects, in the order in which the source performs them. Strings stay strings,
  as they are at run time.
\<close>

record upload_result =
  type :: "string option"
  message :: string

record status_payload =
  processing_status :: "string option"

datatype effect =
    AxiosGet string
  | AxiosPost string
  | SetProcessingStatus "status_payload option"
  | SetUploadResult upload_result
  | SetIsUploading bool
  | ToastSuccess string
  | ToastError string
  | NavigateAfter string nat

definition reviewPath :: "string \<Rightarrow> string" where
  "reviewPath documentId = ''/document/'' @ documentId @ ''/review''"

definition statusPath :: "string \<Rightarrow> string" where
  "statusPath documentId = ''/documents/'' @ documentId @ ''/processing-status''"

section \<open>The upload status poller (hooks/useProcessingPoller.ts)\<close>

text \<open>
  What a status request can come back with. \<open>Data p\<close>: a 2xx response whose
  \<open>res.data.data\<close> is an object; \<open>processing_status p\<close> is its field of that name when it
  is a string. \<open>NoData\<close>: a 2xx response whose \<open>res.data.data\<close> is null or undefined, so
  that reading \<open>status.processing_status\<close> raises a TypeError inside the \<open>try\<close>.
  \<open>NoBody\<close>: \<open>res.data\<close> itself is null or undefined, and \<open>res.data.data\<close> raises.
  \<open>Rejected s\<close>: axios rejects; \<open>s\<close> is \<open>error.response?.status\<close>.
\<close>

datatype status_response =
    Data status_payload
  | NoData
  | NoBody
  | Rejected "nat option"

text \<open>
  The variables captured by one call of \<open>pollProcessingStatus\<close>. \<open>timeoutId\<close> is the
  pending \<open>setTimeout(checkStatus, delay)\<close> with its delay, \<open>None\<close> when no such timer is
  pending; \<open>awaiting\<close> says that \<open>checkStatus\<close> is suspended at \<open>await axios.get\<close>.
  Delays are milliseconds. They are rationals because one path multiplies by 1.5; every
  value that arises is a small dyadic rational, on which the source's floating-point
  products are exact.
\<close>

record poll_closure =
  documentId :: string
  taskId :: string
  attempts :: nat
  currentDelay :: rat
  timeoutId :: "rat option"
  awaiting :: bool

type_synonym poll_world = "string set \<times> poll_closure"

definition maxAttempts :: nat where
  "maxAttempts = 60"

definition maxDelay :: rat where
  "maxDelay = 30000"

definition mkPollKey :: "string \<Rightarrow> string \<Rightarrow> string" where
  "mkPollKey d t = d @ ''-'' @ t"

definition pollKey :: "poll_closure \<Rightarrow> string" where
  "pollKey c = mkPollKey (documentId c) (taskId c)"

text \<open>\<open>cleanup\<close>: \<open>activePolls.delete(pollKey)\<close>, then \<open>clearTimeout(timeoutId)\<close>.\<close>

definition cleanup :: "poll_world \<Rightarrow> poll_world" where
  "cleanup w = (fst w - {pollKey (snd w)}, (snd w)\<lparr>timeoutId := None\<rparr>)"

definition bump :: "poll_closure \<Rightarrow> poll_closure" where
  "bump c = c\<lparr>attempts := attempts c + 1\<rparr>"

definition schedule :: "poll_closure \<Rightarrow> poll_closure" where
  "schedule c = c\<lparr>timeoutId := Some (currentDelay c)\<rparr>"

text \<open>
  The \<open>catch\<close> block of \<open>checkStatus\<close>. \<open>attempts++ < n\<close> compares the old value and
  increments in both branches.
\<close>

definition catchBlock :: "nat option \<Rightarrow> poll_world \<Rightarrow> poll_world \<times> effect list" where
  "catchBlock s w =
     (let registry = fst w; c = snd w in
      if s = Some 429 then
        (let c1 = c\<lparr>currentDelay := min (currentDelay c * 2) maxDelay\<rparr> in
         if attempts c1 < maxAttempts
         then ((registry, schedule (bump c1)), [])
         else (cleanup (registry, bump c1), []))
      else if attempts c < 3
      then ((registry,
             schedule ((bump c)\<lparr>currentDelay := min (currentDelay c * (3 / 2)) maxDelay\<rparr>)), [])
      else (cleanup (registry, bump c),
            [SetUploadResult \<lparr>type = Some ''error'',
               message = ''Unable to check processing status. Please refresh the page.''\<rparr>]))"

text \<open>The part of the \<open>try\<close> block after a status object has been read.\<close>

definition onStatus :: "status_payload \<Rightarrow> poll_world \<Rightarrow> poll_world \<times> effect list" where
  "onStatus p w =
     (let registry = fst w; c = snd w in
      if processing_status p = Some ''completed'' then
        (cleanup w,
         [SetProcessingStatus (Some p),
          SetUploadResult \<lparr>type = Some ''success'', message = ''AI analysis completed!''\<rparr>,
          ToastSuccess ''AI analysis completed!'',
          NavigateAfter (reviewPath (documentId c)) 1500])
      else if processing_status p = Some ''failed'' then
        (cleanup w,
         [SetProcessingStatus (Some p),
          SetUploadResult \<lparr>type = Some ''error'',
            message = ''Document uploaded but AI processing failed.''\<rparr>])
      else if attempts c < maxAttempts then
        ((registry, schedule ((bump c)\<lparr>currentDelay := 5000\<rparr>)),
         [SetProcessingStatus (Some p)])
      else
        (cleanup (registry, bump c),
         [SetProcessingStatus (Some p),
          SetUploadResult \<lparr>type = Some ''error'',
            message = ''Processing timeout. Please check back later.''\<rparr>]))"

text \<open>
  \<open>checkStatus\<close> is split at its \<open>await\<close>. \<open>checkStatus_send\<close> is the part before it: the
  request goes out (when called from a timer, that timer has fired and is no longer
  pending). \<open>checkStatus_resume\<close> is the part after it, run when the request settles.
\<close>

definition checkStatus_send :: "poll_closure \<Rightarrow> poll_closure \<times> effect list" where
  "checkStatus_send c =
     (c\<lparr>timeoutId := None, awaiting := True\<rparr>, [AxiosGet (statusPath (documentId c))])"

definition checkStatus_resume :: "status_response \<Rightarrow> poll_world \<Rightarrow> poll_world \<times> effect list" where
  "checkStatus_resume r w =
     (let w0 = (fst w, (snd w)\<lparr>awaiting := False\<rparr>) in
      case r of
        Data p \<Rightarrow> onStatus p w0
      | NoData \<Rightarrow>
          (let (w1, es) = catchBlock None w0 in (w1, SetProcessingStatus None # es))
      | NoBody \<Rightarrow> catchBlock None w0
      | Rejected s \<Rightarrow> catchBlock s w0)"

text \<open>
  \<open>pollProcessingStatus\<close> up to its return: the registry check, the registration, the
  fresh closure and the first \<open>checkStatus()\<close> up to its \<open>await\<close>. The result is the new
  registry, the closure when one was created, and the effects.
\<close>

definition newClosure :: "string \<Rightarrow> string \<Rightarrow> poll_closure" where
  "newClosure d t =
     \<lparr>documentId = d, taskId = t, attempts = 0, currentDelay = 5000,
      timeoutId = None, awaiting = False\<rparr>"

definition pollProcessingStatus ::
  "string \<Rightarrow> string \<Rightarrow> string set \<Rightarrow> string set \<times> poll_closure option \<times> effect list" where
  "pollProcessingStatus d t activePolls =
     (if mkPollKey d t \<in> activePolls then (activePolls, None, [])
      else (let (c, es) = checkStatus_send (newClosure d t)
            in (insert (mkPollKey d t) activePolls, Some c, es)))"


text \<open>
  One run in isolation, from its first pending request on: every request is answered
  (\<open>env n\<close> answers request number \<open>n\<close>) and every timer fires. The loop is the chain
  settle, \<open>setTimeout\<close>, fire, send of the source.
\<close>

function pollLoop ::
  "(nat \<Rightarrow> status_response) \<Rightarrow> nat \<Rightarrow> poll_world \<Rightarrow> poll_world \<times> effect list" where
  "pollLoop env n w =
     (let (w1, es) = checkStatus_resume (env n) w in
      case timeoutId (snd w1) of
        None \<Rightarrow> (w1, es)
      | Some delay \<Rightarrow>
          (let (c2, es2) = checkStatus_send (snd w1);
               (w3, es3) = pollLoop env (Suc n) (fst w1, c2)
           in (w3, es @ es2 @ es3)))"
  by pat_completeness auto
termination
proof (relation "measure (\<lambda>(env, n, w). Suc maxAttempts - attempts (snd w))")
  show "wf (measure (\<lambda>(env, n, w). Suc maxAttempts - attempts (snd w)))"
    by simp
next
  fix env :: "nat \<Rightarrow> status_response" and n :: nat and w x :: poll_world
    and r :: "poll_world \<times> effect list"
    and es :: "effect list" and delay :: rat and xa :: "poll_closure \<times> effect list"
    and c2 :: poll_closure and es2 :: "effect list"
  assume "r = checkStatus_resume (env n) w" and "(x, es) = r"
    and timer: "timeoutId (snd x) = Some delay"
    and send: "xa = checkStatus_send (snd x)" "(c2, es2) = xa"
  then have step: "(x, es) = checkStatus_resume (env n) w"
    by simp
  have a: "attempts c2 = attempts (snd x)"
    using send by (simp add: checkStatus_send_def)
  have b: "attempts (snd x) = Suc (attempts (snd w)) \<and> attempts (snd w) < maxAttempts"
    using step timer
    by (cases "env n")
       (auto simp: checkStatus_resume_def onStatus_def catchBlock_def cleanup_def bump_def
          schedule_def maxAttempts_def Let_def split: if_splits prod.splits)
  show "((env, Suc n, fst x, c2), (env, n, w))
          \<in> measure (\<lambda>(env, n, w). Suc maxAttempts - attempts (snd w))"
    using a b by (simp add: Suc_diff_le less_imp_le)
qed

definition runPoll ::
  "(nat \<Rightarrow> status_response) \<Rightarrow> string \<Rightarrow> string \<Rightarrow> string set
     \<Rightarrow> string set \<times> poll_closure option \<times> effect list" where
  "runPoll env d t activePolls =
     (case pollProcessingStatus d t activePolls of
        (registry, None, es) \<Rightarrow> (registry, None, es)
      | (registry, Some c, es) \<Rightarrow>
          (let (w, es') = pollLoop env 0 (registry, c) in (fst w, Some (snd w), es @ es')))"

fun isStatusRequest :: "effect \<Rightarrow> bool" where
  "isStatusRequest (AxiosGet url) = True"
| "isStatusRequest e = False"

definition statusRequests :: "effect list \<Rightarrow> nat" where
  "statusRequests es = length (filter isStatusRequest es)"

text \<open>Reading an effect list: the results set, the navigations scheduled, the toasts.\<close>

fun resultsSet :: "effect list \<Rightarrow> upload_result list" where
  "resultsSet [] = []"
| "resultsSet (SetUploadResult r # es) = r # resultsSet es"
| "resultsSet (e # es) = resultsSet es"

fun navigations :: "effect list \<Rightarrow> (string \<times> nat) list" where
  "navigations [] = []"
| "navigations (NavigateAfter path ms # es) = (path, ms) # navigations es"
| "navigations (e # es) = navigations es"

fun errorToasts :: "effect list \<Rightarrow> string list" where
  "errorToasts [] = []"
| "errorToasts (ToastError m # es) = m # errorToasts es"
| "errorToasts (e # es) = errorToasts es"

text \<open>
  A closure is still polling when a request of its is outstanding or a timer of its is
  pending: in both cases \<open>checkStatus\<close> will run again.
\<close>

definition pending :: "poll_closure \<Rightarrow> bool" where
  "pending c = (case timeoutId c of None \<Rightarrow> False | Some delay \<Rightarrow> True)"

definition polling :: "poll_closure \<Rightarrow> bool" where
  "polling c = (awaiting c \<or> pending c)"

subsection \<open>Several calls on one page\<close>

text \<open>
  The module holds one registry; every call that passes the registry check creates a
  closure of its own. JavaScript runs the callbacks one at a time, so the page is a
  transition system over the registry and the closures created so far, in creation order:
  \<open>Call d t\<close> is a call of \<open>pollProcessingStatus\<close>, \<open>Settles i r\<close> the outstanding request
  of closure \<open>i\<close> settling with \<open>r\<close>, \<open>Fires i\<close> the pending timer of closure \<open>i\<close> firing, and
  \<open>Cancel i\<close> a call of the \<open>cleanup\<close> function that call \<open>i\<close> returned to its caller
  ("for manual cancellation"; \<open>useProcessingStatusPoll\<close> calls it when its effect is
  torn down). An event that is not enabled leaves the state as it is.
\<close>

datatype poll_event =
    Call string string
  | Settles nat status_response
  | Fires nat
  | Cancel nat

type_synonym poll_page = "string set \<times> poll_closure list"

fun pageStep :: "poll_event \<Rightarrow> poll_page \<Rightarrow> poll_page" where
  "pageStep (Call d t) (registry, cs) =
     (case pollProcessingStatus d t registry of
        (registry', None, es) \<Rightarrow> (registry', cs)
      | (registry', Some c, es) \<Rightarrow> (registry', cs @ [c]))"
| "pageStep (Settles i r) (registry, cs) =
     (if i < length cs \<and> awaiting (cs ! i)
      then (let (w, es) = checkStatus_resume r (registry, cs ! i) in (fst w, cs[i := snd w]))
      else (registry, cs))"
| "pageStep (Fires i) (registry, cs) =
     (if i < length cs \<and> pending (cs ! i)
      then (registry, cs[i := fst (checkStatus_send (cs ! i))])
      else (registry, cs))"
| "pageStep (Cancel i) (registry, cs) =
     (if i < length cs
      then (let w = cleanup (registry, cs ! i) in (fst w, cs[i := snd w]))
      else (registry, cs))"

fun pageRun :: "poll_event list \<Rightarrow> poll_page \<Rightarrow> poll_page" where
  "pageRun [] page = page"
| "pageRun (e # es) page = pageRun es (pageStep e page)"

definition pollsFor :: "string \<Rightarrow> poll_page \<Rightarrow> poll_closure list" where
  "pollsFor key page = filter (\<lambda>c. pollKey c = key \<and> polling c) (snd page)"

fun isCancel :: "poll_event \<Rightarrow> bool" where
  "isCancel (Cancel i) = True"
| "isCancel e = False"

text \<open>
  The registry's invariant: a closure that still polls has its key in the registry, and
  no two closures that still poll have the same key.
\<close>

definition pageInv :: "poll_page \<Rightarrow> bool" where
  "pageInv page =
     ((\<forall>i < length (snd page). polling (snd page ! i) \<longrightarrow> pollKey (snd page ! i) \<in> fst page)
      \<and> (\<forall>i < length (snd page). \<forall>j < length (snd page).
            i \<noteq> j \<and> polling (snd page ! i) \<and> polling (snd page ! j)
              \<longrightarrow> pollKey (snd page ! i) \<noteq> pollKey (snd page ! j)))"

section \<open>The upload hand-off (hooks/useFileUpload.ts)\<close>

text \<open>
  The upload response as \<open>handleUpload\<close> reads it: \<open>res.status\<close> and \<open>res.data\<close>, whose
  \<open>processing\<close> is \<open>None\<close> when the field is absent or falsy and whose \<open>data\<close> is \<open>None\<close>
  when it is null or undefined. \<open>Responded st None\<close> is a response whose body is null or
  undefined, on which reading \<open>res.data.processing\<close> or \<open>res.data.data\<close> raises a
  TypeError inside the \<open>try\<close>. \<open>Threw\<close> is \<open>axios.post\<close> rejecting.
\<close>

record processing_info =
  task_id :: "string option"

record upload_data =
  document_id :: "string option"

record upload_body =
  processing :: "processing_info option"
  data :: "upload_data option"

datatype upload_outcome =
    Responded nat "upload_body option"
  | Threw

text \<open>A value placed in a template literal: an absent one prints as \<open>undefined\<close>.\<close>

definition templateString :: "string option \<Rightarrow> string" where
  "templateString v = (case v of None \<Rightarrow> ''undefined'' | Some s \<Rightarrow> s)"

text \<open>\<open>res.data.data?.document_id\<close>\<close>

definition documentIdOf :: "upload_body \<Rightarrow> string option" where
  "documentIdOf b = (case data b of None \<Rightarrow> None | Some d \<Rightarrow> document_id d)"

text \<open>
  \<open>handleUpload\<close>, given the selected file, the token in localStorage, what the upload
  request comes back with, and the poll registry. The identifiers are only ever used
  inside template literals, so they are passed on as the strings they print as.
\<close>

definition handleUpload ::
  "string option \<Rightarrow> string option \<Rightarrow> upload_outcome \<Rightarrow> string set
     \<Rightarrow> (string set \<times> poll_closure option) \<times> effect list" where
  "handleUpload uploadedFile token outcome activePolls =
     (if uploadedFile = None then ((activePolls, None), [])
      else if token = None \<or> token = Some [] then
        ((activePolls, None),
         [SetUploadResult \<lparr>type = Some ''error'',
            message = ''Authentication required. Please log in to upload documents.''\<rparr>])
      else
        (let before = [SetIsUploading True, AxiosPost ''/documents/upload''];
             after = [SetIsUploading False];
             caught = ((activePolls, None),
                       before @ [SetUploadResult \<lparr>type = Some ''error'',
                                   message = ''Upload failed. Try again.''\<rparr>] @ after)
         in case outcome of
              Threw \<Rightarrow> caught
            | Responded st None \<Rightarrow> caught
            | Responded st (Some body) \<Rightarrow>
                (case (if st = 202 then processing body else None) of
                   Some p \<Rightarrow>
                     (let (registry, c, es) =
                            pollProcessingStatus (templateString (documentIdOf body))
                              (templateString (task_id p)) activePolls
                      in ((registry, c),
                          before @ [SetUploadResult \<lparr>type = Some ''processing'',
                                      message = ''AI analysis in progress...''\<rparr>] @ es @ after))
                 | None \<Rightarrow>
                     ((activePolls, None),
                      before @
                      [ToastSuccess ''Document uploaded successfully!'',
                       SetUploadResult \<lparr>type = Some ''success'',
                         message = ''Document uploaded successfully!''\<rparr>,
                       NavigateAfter (reviewPath (templateString (documentIdOf body))) 1500]
                      @ after))))"

fun uploadRequests :: "effect list \<Rightarrow> nat" where
  "uploadRequests [] = 0"
| "uploadRequests (AxiosPost url # es) = Suc (uploadRequests es)"
| "uploadRequests (e # es) = uploadRequests es"

section \<open>The status mappers (utils/queueUtils.ts, utils/usagestatsUtils.ts)\<close>

text \<open>
  \<open>toLowerCase\<close> on the bytes of the string: the letters A to Z are replaced, every other
  byte is kept. On the keywords of the two mappers this agrees with JavaScript's
  \<open>toLowerCase\<close>: the only character outside ASCII that it maps to an ASCII letter is
  the Kelvin sign (to k), and no keyword contains a k.
\<close>

definition lowerChar :: "char \<Rightarrow> char" where
  "lowerChar c =
     (case map_of (zip ''ABCDEFGHIJKLMNOPQRSTUVWXYZ'' ''abcdefghijklmnopqrstuvwxyz'') c of
        None \<Rightarrow> c
      | Some l \<Rightarrow> l)"

definition toLowerCase :: "string \<Rightarrow> string" where
  "toLowerCase s = map lowerChar s"

datatype DocumentStatus = Uploaded | Processing | Completed | Failed

fun statusText :: "DocumentStatus \<Rightarrow> string" where
  "statusText Uploaded = ''Uploaded''"
| "statusText Processing = ''Processing''"
| "statusText Completed = ''Completed''"
| "statusText Failed = ''Failed''"

text \<open>
  Both mappers start with \<open>apiStatus?.toLowerCase()\<close>; the argument is \<open>None\<close> when the
  caller passes undefined. The \<open>switch\<close> is kept in the order of each source.
\<close>

definition mapApiStatusToDisplayStatus_queueUtils :: "string option \<Rightarrow> DocumentStatus" where
  "mapApiStatusToDisplayStatus_queueUtils apiStatus =
     (case map_option toLowerCase apiStatus of
        None \<Rightarrow> Uploaded
      | Some status \<Rightarrow>
          if status = ''uploaded'' \<or> status = ''pending'' then Uploaded
          else if status = ''processing'' \<or> status = ''in_progress'' \<or> status = ''analyzing''
          then Processing
          else if status = ''completed'' \<or> status = ''done'' \<or> status = ''success''
                  \<or> status = ''ready''
          then Completed
          else if status = ''failed'' \<or> status = ''error'' \<or> status = ''cancelled''
                  \<or> status = ''canceled''
          then Failed
          else Uploaded)"

definition mapApiStatusToDisplayStatus_usagestatsUtils :: "string option \<Rightarrow> string" where
  "mapApiStatusToDisplayStatus_usagestatsUtils apiStatus =
     (case map_option toLowerCase apiStatus of
        None \<Rightarrow> ''Other''
      | Some status \<Rightarrow>
          if status = ''completed'' \<or> status = ''complete'' \<or> status = ''done''
             \<or> status = ''finished'' \<or> status = ''processed'' \<or> status = ''ready''
             \<or> status = ''success'' \<or> status = ''successful''
          then ''Completed''
          else if status = ''processing'' \<or> status = ''in_progress'' \<or> status = ''analyzing''
          then ''Processing''
          else if status = ''failed'' \<or> status = ''error'' \<or> status = ''cancelled''
                  \<or> status = ''canceled''
          then ''Failed''
          else if status = ''uploaded'' \<or> status = ''pending'' then ''Uploaded''
          else ''Other'')"

text \<open>The lower-case strings that some \<open>case\<close> label of either mapper names.\<close>

definition recognized :: "string list" where
  "recognized =
     [''uploaded'', ''pending'', ''processing'', ''in_progress'', ''analyzing'',
      ''completed'', ''complete'', ''done'', ''finished'', ''processed'', ''ready'',
      ''success'', ''successful'', ''failed'', ''error'', ''cancelled'', ''canceled'']"

section \<open>Loading the queue (utils/queueUtils.ts)\<close>

text \<open>
  A document as the API sends it: every field that \<open>fetchDocuments\<close> reads, \<open>None\<close> when
  absent. \<open>a || b\<close> yields \<open>a\<close> when it is truthy (a non-empty string) and \<open>b\<close> otherwise.
\<close>

record raw_doc =
  raw_id :: "string option"
  raw_document_id :: "string option"
  raw__id :: "string option"
  raw_name :: "string option"
  raw_filename :: "string option"
  raw_title :: "string option"
  raw_status :: "string option"
  raw_processing_status :: "string option"
  raw_state :: "string option"
  raw_created_at :: "string option"
  raw_uploaded_at :: "string option"
  raw_createdAt :: "string option"
  raw_upload_date :: "string option"
  raw_file_type :: "string option"

record QueueDocument =
  id_field :: "string option"
  name :: string
  status :: DocumentStatus
  uploadedAt :: "string option"
  file_type :: "string option"

definition orElse :: "string option \<Rightarrow> string option \<Rightarrow> string option" where
  "orElse a b = (case a of None \<Rightarrow> b | Some s \<Rightarrow> if s = [] then b else a)"

definition formatDoc :: "raw_doc \<Rightarrow> QueueDocument" where
  "formatDoc doc =
     \<lparr>id_field = orElse (orElse (raw_id doc) (raw_document_id doc)) (raw__id doc),
      name = (case orElse (orElse (orElse (raw_name doc) (raw_filename doc)) (raw_title doc))
                     (Some ''Unknown Document'') of
                None \<Rightarrow> ''Unknown Document'' | Some n \<Rightarrow> n),
      status = mapApiStatusToDisplayStatus_queueUtils
                 (orElse (orElse (raw_status doc) (raw_processing_status doc)) (raw_state doc)),
      uploadedAt = orElse (orElse (orElse (raw_created_at doc) (raw_uploaded_at doc))
                     (raw_createdAt doc)) (raw_upload_date doc),
      file_type = raw_file_type doc\<rparr>"

text \<open>
  What \<open>axios.get\<close> of the document list comes back with. \<open>Wrapped ds\<close>: \<open>response.data.data\<close>
  is an array; \<open>Bare ds\<close>: \<open>response.data\<close> is an array; \<open>Unexpected\<close>: neither.
  \<open>FetchFailed s\<close>: the request is rejected, \<open>s\<close> is \<open>error.response?.status\<close>.
\<close>

datatype docs_body = Wrapped "raw_doc list" | Bare "raw_doc list" | Unexpected

datatype fetch_outcome = Fetched docs_body | FetchFailed "nat option"

fun docsOf :: "docs_body \<Rightarrow> raw_doc list" where
  "docsOf (Wrapped ds) = ds"
| "docsOf (Bare ds) = ds"
| "docsOf Unexpected = []"

text \<open>
  \<open>fetchDocuments\<close>: \<open>Inr docs\<close> is the value the promise resolves to, \<open>Inl s\<close> the error it
  rethrows, named by its \<open>response?.status\<close>.
\<close>

definition fetchDocuments ::
  "string \<Rightarrow> fetch_outcome \<Rightarrow> (nat option + QueueDocument list) \<times> effect list" where
  "fetchDocuments token outcome =
     (if token = [] then (Inr [], [])
      else case outcome of
             Fetched body \<Rightarrow> (Inr (map formatDoc (docsOf body)), [AxiosGet ''/documents/''])
           | FetchFailed s \<Rightarrow>
               (Inl s,
                AxiosGet ''/documents/'' #
                (if s = Some 401 then [ToastError ''Authentication expired. Please log in again.'']
                 else if s \<noteq> Some 429
                 then [ToastError ''Failed to load documents. Please try again.'']
                 else [])))"

section \<open>The processing queue (components/processing-queue/ProcessingQueue.tsx)\<close>

text \<open>
  The component's state: the three \<open>useState\<close> cells and the timer behind the
  \<open>pollTimer\<close> ref, \<open>Some delay\<close> while a \<open>setTimeout\<close> of that delay is pending. Clearing a
  timer that has already fired does nothing, so only the pending one is kept.
\<close>

record queue_state =
  documents :: "QueueDocument list"
  isLoading :: bool
  pollDelay :: nat
  pollTimer :: "nat option"

definition initialQueue :: queue_state where
  "initialQueue = \<lparr>documents = [], isLoading = False, pollDelay = 10000, pollTimer = None\<rparr>"

definition clearPollTimer :: "queue_state \<Rightarrow> queue_state" where
  "clearPollTimer q = q\<lparr>pollTimer := None\<rparr>"

text \<open>
  \<open>handleFetchDocuments\<close>, from the call to the end of its \<open>finally\<close>, given the token
  of \<open>useAuth\<close> and what the request comes back with.
\<close>

definition handleFetchDocuments ::
  "string option \<Rightarrow> fetch_outcome \<Rightarrow> queue_state \<Rightarrow> queue_state \<times> effect list" where
  "handleFetchDocuments token outcome q =
     (case token of
        None \<Rightarrow> (q, [])
      | Some tk \<Rightarrow>
          if tk = [] then (q, [])
          else (case fetchDocuments tk outcome of
                  (Inr docs, es) \<Rightarrow>
                    (q\<lparr>documents := docs, pollDelay := 10000, isLoading := False\<rparr>, es)
                | (Inl s, es) \<Rightarrow>
                    if s = Some 429
                    then (q\<lparr>pollDelay := min (pollDelay q * 2) 300000, isLoading := False\<rparr>, es)
                    else (q\<lparr>isLoading := False\<rparr>, es)))"

text \<open>
  The body of the "adaptive polling" effect, which React runs after a render in which
  \<open>documents\<close>, \<open>pollDelay\<close> or \<open>onDocumentUpdate\<close> changed.
\<close>

definition hasActiveDocs :: "QueueDocument list \<Rightarrow> bool" where
  "hasActiveDocs docs = list_ex (\<lambda>doc. status doc = Processing \<or> status doc = Uploaded) docs"

definition adaptivePolling :: "queue_state \<Rightarrow> queue_state" where
  "adaptivePolling q =
     (let q1 = clearPollTimer q in
      if hasActiveDocs (documents q1) then q1\<lparr>pollTimer := Some (pollDelay q1)\<rparr> else q1)"

text \<open>
  The events of the mounted queue. \<open>DocumentsUpdated docs\<close>: \<open>setDocuments(docs)\<close> (after a
  fetch, or the filtered list after a cancellation), the render and the effect.
  \<open>FetchSettled token outcome\<close>: a call of \<open>handleFetchDocuments\<close> runs to its end; a
  successful fetch stores a new array, so the effect runs; otherwise it runs only when
  \<open>pollDelay\<close> changed. \<open>TimerFired\<close>: the pending timer fires and calls
  \<open>handleFetchDocuments\<close>, leaving no timer pending; when none is pending nothing happens.
  What that call does to the state is the \<open>FetchSettled\<close> that follows it.
  \<open>PropsChanged\<close>: the parent rendered again and passed a new \<open>onDocumentUpdate\<close> (the
  home page creates that function on every render), so the effect runs on the state as
  it is. The result says whether the step started an automatic fetch.
\<close>

datatype queue_event =
    DocumentsUpdated "QueueDocument list"
  | FetchSettled "string option" fetch_outcome
  | TimerFired
  | PropsChanged

fun fetchStored :: "string option \<Rightarrow> fetch_outcome \<Rightarrow> bool" where
  "fetchStored None outcome = False"
| "fetchStored (Some tk) (Fetched body) = (tk \<noteq> [])"
| "fetchStored (Some tk) (FetchFailed s) = False"

fun queueStep :: "queue_event \<Rightarrow> queue_state \<Rightarrow> queue_state \<times> bool" where
  "queueStep (DocumentsUpdated docs) q = (adaptivePolling (q\<lparr>documents := docs\<rparr>), False)"
| "queueStep (FetchSettled token outcome) q =
     (let q' = fst (handleFetchDocuments token outcome q) in
      if fetchStored token outcome then (adaptivePolling q', False)
      else if pollDelay q' = pollDelay q then (q', False)
      else (adaptivePolling q', False))"
| "queueStep TimerFired q =
     (case pollTimer q of
        None \<Rightarrow> (q, False)
      | Some delay \<Rightarrow> (q\<lparr>pollTimer := None\<rparr>, True))"
| "queueStep PropsChanged q = (adaptivePolling q, False)"

fun queueRun :: "queue_event list \<Rightarrow> queue_state \<Rightarrow> queue_state \<times> nat" where
  "queueRun [] q = (q, 0)"
| "queueRun (e # es) q =
     (let (q1, started) = queueStep e q; (q2, n) = queueRun es q1
      in (q2, (if started then Suc n else n)))"

text \<open>
  An event brings active documents when it stores a list in which some document is
  \<open>Processing\<close> or \<open>Uploaded\<close>.
\<close>

fun bringsActiveDocs :: "queue_event \<Rightarrow> bool" where
  "bringsActiveDocs (DocumentsUpdated docs) = hasActiveDocs docs"
| "bringsActiveDocs (FetchSettled token (Fetched body)) =
     (fetchStored token (Fetched body) \<and> hasActiveDocs (map formatDoc (docsOf body)))"
| "bringsActiveDocs e = False"

section \<open>Sample environments\<close>

text \<open>A backend that cannot be reached: every status request is rejected without a response.\<close>

definition alwaysDown :: "nat \<Rightarrow> status_response" where
  "alwaysDown n = Rejected None"

text \<open>A backend that reports \<open>processing\<close> for ever.\<close>

definition alwaysProcessing :: "nat \<Rightarrow> status_response" where
  "alwaysProcessing n = Data \<lparr>processing_status = Some ''processing''\<rparr>"

text \<open>A document as the API lists it while it is analysed, and two rows of the queue.\<close>

definition analysingRawDoc :: raw_doc where
  "analysingRawDoc =
     \<lparr>raw_id = Some ''a1'', raw_document_id = None, raw__id = None,
      raw_name = None, raw_filename = Some ''lease.pdf'', raw_title = None,
      raw_status = None, raw_processing_status = Some ''Analyzing'', raw_state = None,
      raw_created_at = None, raw_uploaded_at = None, raw_createdAt = None,
      raw_upload_date = Some ''2025-01-05'', raw_file_type = Some ''pdf''\<rparr>"

definition processingRow :: QueueDocument where
  "processingRow =
     \<lparr>id_field = Some ''a1'', name = ''lease.pdf'', status = Processing,
      uploadedAt = Some ''2025-01-05'', file_type = Some ''pdf''\<rparr>"

definition completedRow :: QueueDocument where
  "completedRow =
     \<lparr>id_field = Some ''a2'', name = ''nda.pdf'', status = Completed,
      uploadedAt = None, file_type = None\<rparr>"

section \<open>Properties of the upload status poller\<close>

lemmas poll_defs = checkStatus_resume_def onStatus_def catchBlock_def cleanup_def bump_def
  schedule_def maxAttempts_def maxDelay_def polling_def pending_def reviewPath_def Let_def

text \<open>
  Claim C4. When a status request settles with a status object, the run stops polling
  exactly when the reported \<open>processing_status\<close> is \<open>completed\<close> or \<open>failed\<close>, the attempt
  limit apart. On \<open>completed\<close> the result becomes the success message
  "AI analysis completed!" and navigation to \<open>/document/{documentId}/review\<close> is
  scheduled after 1500 ms; on \<open>failed\<close> the result becomes the error
  "Document uploaded but AI processing failed." and nothing is scheduled; on any other
  status, below the attempt limit, a new \<open>checkStatus\<close> is scheduled, no result is set and
  the registry is left alone. Conversely a run that still polls after the step was
  told neither \<open>completed\<close> nor \<open>failed\<close>.
\<close>

theorem terminal_status_behaviour:
  "(case checkStatus_resume (Data p) (registry, c) of
      ((registry', c'), es) \<Rightarrow>
        (processing_status p = Some ''completed'' \<longrightarrow>
           \<not> polling c' \<and>
           resultsSet es = [\<lparr>type = Some ''success'', message = ''AI analysis completed!''\<rparr>] \<and>
           navigations es = [(''/document/'' @ documentId c @ ''/review'', 1500)])
      \<and> (processing_status p = Some ''failed'' \<longrightarrow>
           \<not> polling c' \<and>
           resultsSet es = [\<lparr>type = Some ''error'',
             message = ''Document uploaded but AI processing failed.''\<rparr>] \<and>
           navigations es = [])
      \<and> (processing_status p \<noteq> Some ''completed'' \<and> processing_status p \<noteq> Some ''failed''
           \<and> attempts c < maxAttempts \<longrightarrow>
           polling c' \<and> timeoutId c' = Some 5000 \<and> resultsSet es = [] \<and>
           navigations es = [] \<and> registry' = registry)
      \<and> (polling c' \<longrightarrow>
           processing_status p \<noteq> Some ''completed'' \<and> processing_status p \<noteq> Some ''failed''))"
  by (simp add: poll_defs)

theorem terminal_status_behaviour_witness:
  "(case checkStatus_resume (Data \<lparr>processing_status = Some ''completed''\<rparr>)
          ({''d7-t1''}, newClosure ''d7'' ''t1'') of
      ((registry', c'), es) \<Rightarrow>
        \<not> polling c' \<and>
        resultsSet es = [\<lparr>type = Some ''success'', message = ''AI analysis completed!''\<rparr>] \<and>
        navigations es = [(''/document/d7/review'', 1500)])
   \<and> (case checkStatus_resume (Data \<lparr>processing_status = Some ''failed''\<rparr>)
          ({''d7-t1''}, newClosure ''d7'' ''t1'') of
      ((registry', c'), es) \<Rightarrow>
        \<not> polling c' \<and>
        resultsSet es = [\<lparr>type = Some ''error'',
          message = ''Document uploaded but AI processing failed.''\<rparr>])
   \<and> (case checkStatus_resume (Data \<lparr>processing_status = Some ''processing''\<rparr>)
          ({''d7-t1''}, newClosure ''d7'' ''t1'') of
      ((registry', c'), es) \<Rightarrow>
        polling c' \<and> timeoutId c' = Some 5000 \<and> resultsSet es = [] \<and>
        registry' = {''d7-t1''})"
  using terminal_status_behaviour
          [where p = "\<lparr>processing_status = Some ''completed''\<rparr>" and registry = "{''d7-t1''}"
             and c = "newClosure ''d7'' ''t1''"]
        terminal_status_behaviour
          [where p = "\<lparr>processing_status = Some ''failed''\<rparr>" and registry = "{''d7-t1''}"
             and c = "newClosure ''d7'' ''t1''"]
        terminal_status_behaviour
          [where p = "\<lparr>processing_status = Some ''processing''\<rparr>" and registry = "{''d7-t1''}"
             and c = "newClosure ''d7'' ''t1''"]
  by (simp add: newClosure_def maxAttempts_def split: prod.splits)

section \<open>Properties of the backoff delays\<close>

lemmas queue_defs = handleFetchDocuments_def fetchDocuments_def adaptivePolling_def
  clearPollTimer_def Let_def

lemma scheduled_delay_bounded:
  "timeoutId (snd (fst (checkStatus_resume r (registry, c)))) = Some d \<Longrightarrow> d \<le> 30000"
  by (cases r) (auto simp: poll_defs split: if_splits prod.splits)

lemma queueStep_delay_bounded:
  assumes "pollDelay q \<le> 300000" and "\<forall>d. pollTimer q = Some d \<longrightarrow> d \<le> 300000"
  shows "pollDelay (fst (queueStep e q)) \<le> 300000 \<and>
         (\<forall>d. pollTimer (fst (queueStep e q)) = Some d \<longrightarrow> d \<le> 300000)"
proof (cases e)
  case (DocumentsUpdated docs)
  with assms show ?thesis by (simp add: queue_defs)
next
  case (FetchSettled token outcome)
  with assms show ?thesis
    by (cases token; cases outcome) (auto simp: queue_defs split: if_splits)
next
  case TimerFired
  with assms show ?thesis by (simp split: option.splits)
next
  case PropsChanged
  with assms show ?thesis by (simp add: queue_defs)
qed

lemma queueRun_delay_bounded:
  "pollDelay q \<le> 300000 \<Longrightarrow> \<forall>d. pollTimer q = Some d \<longrightarrow> d \<le> 300000 \<Longrightarrow>
   pollDelay (fst (queueRun evs q)) \<le> 300000 \<and>
   (\<forall>d. pollTimer (fst (queueRun evs q)) = Some d \<longrightarrow> d \<le> 300000)"
proof (induction evs arbitrary: q)
  case Nil
  then show ?case by simp
next
  case (Cons e evs)
  have "pollDelay (fst (queueStep e q)) \<le> 300000 \<and>
        (\<forall>d. pollTimer (fst (queueStep e q)) = Some d \<longrightarrow> d \<le> 300000)"
    using Cons.prems by (rule queueStep_delay_bounded)
  then have "pollDelay (fst (queueRun evs (fst (queueStep e q)))) \<le> 300000 \<and>
        (\<forall>d. pollTimer (fst (queueRun evs (fst (queueStep e q)))) = Some d \<longrightarrow> d \<le> 300000)"
    using Cons.IH by blast
  then show ?case
    by (simp add: split_beta Let_def)
qed

text \<open>
  Claim C2. A status request of the poller that fails with HTTP 429 sets the delay to
  \<open>min (2 * currentDelay) 30000\<close>, and that is the delay of the timer it schedules when
  the run goes on; whatever the request comes back with and whatever the closure held,
  a timer scheduled by \<open>checkStatus\<close> never waits longer than 30000 ms. In the queue, a
  document fetch that fails with HTTP 429 sets \<open>pollDelay\<close> to
  \<open>min (2 * pollDelay) 300000\<close>, and after any sequence of events of the mounted queue
  neither \<open>pollDelay\<close> nor the delay of the pending refresh timer exceeds 300000 ms.
\<close>

theorem exponential_backoff:
  "(case checkStatus_resume (Rejected (Some 429)) (registry, c) of
      ((registry', c'), es) \<Rightarrow>
        currentDelay c' = min (2 * currentDelay c) 30000 \<and>
        (polling c' \<longrightarrow> timeoutId c' = Some (min (2 * currentDelay c) 30000)))
   \<and> (\<forall>d. timeoutId (snd (fst (checkStatus_resume r (registry, c)))) = Some d \<longrightarrow> d \<le> 30000)
   \<and> (tk \<noteq> [] \<longrightarrow>
        pollDelay (fst (handleFetchDocuments (Some tk) (FetchFailed (Some 429)) q))
          = min (2 * pollDelay q) 300000)
   \<and> pollDelay (fst (queueRun evs initialQueue)) \<le> 300000
   \<and> (\<forall>d. pollTimer (fst (queueRun evs initialQueue)) = Some d \<longrightarrow> d \<le> 300000)"
proof -
  have a: "case checkStatus_resume (Rejected (Some 429)) (registry, c) of
      ((registry', c'), es) \<Rightarrow>
        currentDelay c' = min (2 * currentDelay c) 30000 \<and>
        (polling c' \<longrightarrow> timeoutId c' = Some (min (2 * currentDelay c) 30000))"
    by (simp add: poll_defs mult.commute)
  have b: "\<forall>d. timeoutId (snd (fst (checkStatus_resume r (registry, c)))) = Some d \<longrightarrow> d \<le> 30000"
    using scheduled_delay_bounded by blast
  have c: "tk \<noteq> [] \<longrightarrow>
        pollDelay (fst (handleFetchDocuments (Some tk) (FetchFailed (Some 429)) q))
          = min (2 * pollDelay q) 300000"
    by (simp add: queue_defs mult.commute)
  have d: "pollDelay (fst (queueRun evs initialQueue)) \<le> 300000 \<and>
     (\<forall>d. pollTimer (fst (queueRun evs initialQueue)) = Some d \<longrightarrow> d \<le> 300000)"
    by (rule queueRun_delay_bounded) (simp_all add: initialQueue_def)
  from a b c d show ?thesis by blast
qed

theorem exponential_backoff_witness:
  "(case checkStatus_resume (Rejected (Some 429))
          ({''d7-t1''}, (newClosure ''d7'' ''t1'')\<lparr>currentDelay := 20000\<rparr>) of
      ((registry', c'), es) \<Rightarrow>
        currentDelay c' = 30000 \<and> polling c' \<and> timeoutId c' = Some 30000)
   \<and> ''tok'' \<noteq> []
   \<and> pollDelay (fst (handleFetchDocuments (Some ''tok'') (FetchFailed (Some 429)) initialQueue))
        = 20000
   \<and> pollTimer (fst (queueRun
        [DocumentsUpdated [\<lparr>id_field = Some ''a1'', name = ''lease.pdf'', status = Processing,
            uploadedAt = None, file_type = None\<rparr>],
         TimerFired,
         FetchSettled (Some ''tok'') (FetchFailed (Some 429))] initialQueue)) = Some 20000
   \<and> (20000 :: nat) \<le> 300000"
  using exponential_backoff
          [where registry = "{''d7-t1''}" and c = "(newClosure ''d7'' ''t1'')\<lparr>currentDelay := 20000\<rparr>"
             and r = "Rejected (Some 429)" and tk = "''tok''" and q = initialQueue
             and evs = "[DocumentsUpdated [\<lparr>id_field = Some ''a1'', name = ''lease.pdf'',
                            status = Processing, uploadedAt = None, file_type = None\<rparr>],
                         TimerFired,
                         FetchSettled (Some ''tok'') (FetchFailed (Some 429))]"]
  by (simp add: newClosure_def poll_defs queue_defs initialQueue_def hasActiveDocs_def)

section \<open>Resetting the delays\<close>

lemmas page_eval = pollProcessingStatus_def newClosure_def checkStatus_send_def poll_defs
  mkPollKey_def pollKey_def statusPath_def

text \<open>
  Claim C5, as the spec states it, says that every successful status request that finds
  the document neither completed nor failed resets the poller's delay to 5000 ms. The
  reset sits inside the branch \<open>attempts++ < maxAttempts\<close>. After sixty requests answered
  with HTTP 429 the closure holds \<open>attempts = 60\<close> and \<open>currentDelay = 30000\<close>; when the
  sixty-first request then succeeds with status \<open>processing\<close>, the run ends in the
  timeout branch and the delay is not 5000.
\<close>

theorem delay_reset_counterexample:
  "pageRun (Call ''d7'' ''t1'' #
            concat (replicate 60 [Settles 0 (Rejected (Some 429)), Fires 0])) ({}, [])
     = ({''d7-t1''},
        [\<lparr>documentId = ''d7'', taskId = ''t1'', attempts = 60, currentDelay = 30000,
          timeoutId = None, awaiting = True\<rparr>])
   \<and> currentDelay (snd (fst (checkStatus_resume
         (Data \<lparr>processing_status = Some ''processing''\<rparr>)
         ({''d7-t1''}, \<lparr>documentId = ''d7'', taskId = ''t1'', attempts = 60,
            currentDelay = 30000, timeoutId = None, awaiting = True\<rparr>)))) \<noteq> 5000"
  by (simp add: page_eval numeral_eq_Suc)

text \<open>
  Claim C5, amended. Whenever a status request of the poller succeeds with a status
  other than \<open>completed\<close> and \<open>failed\<close> and the attempt limit has not been reached
  (\<open>attempts < 60\<close>, so that another check is scheduled), the delay is reset to 5000 ms
  whatever backoff had accumulated, and the next check is scheduled with that delay;
  when the limit has been reached the delay is left as it was. Whenever
  \<open>handleFetchDocuments\<close> succeeds, the queue's \<open>pollDelay\<close> is reset to 10000 ms.
\<close>

theorem delay_reset_on_success:
  "(processing_status p \<noteq> Some ''completed'' \<and> processing_status p \<noteq> Some ''failed'' \<longrightarrow>
      (case checkStatus_resume (Data p) (registry, c) of
         ((registry', c'), es) \<Rightarrow>
           (attempts c < maxAttempts \<longrightarrow> currentDelay c' = 5000 \<and> timeoutId c' = Some 5000) \<and>
           (maxAttempts \<le> attempts c \<longrightarrow> currentDelay c' = currentDelay c)))
   \<and> (tk \<noteq> [] \<longrightarrow> pollDelay (fst (handleFetchDocuments (Some tk) (Fetched body) q)) = 10000)"
  by (simp add: poll_defs queue_defs)

theorem delay_reset_on_success_witness:
  "(case checkStatus_resume (Data \<lparr>processing_status = Some ''pending''\<rparr>)
          ({''d7-t1''}, (newClosure ''d7'' ''t1'')\<lparr>attempts := 4, currentDelay := 30000\<rparr>) of
      ((registry', c'), es) \<Rightarrow> currentDelay c' = 5000 \<and> timeoutId c' = Some 5000)
   \<and> (case checkStatus_resume (Data \<lparr>processing_status = Some ''pending''\<rparr>)
          ({''d7-t1''}, (newClosure ''d7'' ''t1'')\<lparr>attempts := 60, currentDelay := 30000\<rparr>) of
      ((registry', c'), es) \<Rightarrow> currentDelay c' = 30000)
   \<and> pollDelay (fst (handleFetchDocuments (Some ''tok'') (Fetched (Wrapped []))
                     (initialQueue\<lparr>pollDelay := 160000\<rparr>))) = 10000"
  using delay_reset_on_success
          [where p = "\<lparr>processing_status = Some ''pending''\<rparr>" and registry = "{''d7-t1''}"
             and c = "(newClosure ''d7'' ''t1'')\<lparr>attempts := 4, currentDelay := 30000\<rparr>"
             and tk = "''tok''" and body = "Wrapped []"
             and q = "initialQueue\<lparr>pollDelay := 160000\<rparr>"]
        delay_reset_on_success
          [where p = "\<lparr>processing_status = Some ''pending''\<rparr>" and registry = "{''d7-t1''}"
             and c = "(newClosure ''d7'' ''t1'')\<lparr>attempts := 60, currentDelay := 30000\<rparr>"
             and tk = "''tok''" and body = "Wrapped []"
             and q = "initialQueue\<lparr>pollDelay := 160000\<rparr>"]
  by (simp add: newClosure_def maxAttempts_def split: prod.splits)

section \<open>Termination of a run and cleanup of the registry\<close>

lemma resume_sends_nothing: "statusRequests (snd (checkStatus_resume r w)) = 0"
  by (cases r) (simp_all add: poll_defs statusRequests_def split_beta)

lemma resume_not_awaiting: "\<not> awaiting (snd (fst (checkStatus_resume r w)))"
  by (cases r) (simp_all add: poll_defs split_beta)

lemma resume_counts:
  "timeoutId (snd (fst (checkStatus_resume r w))) = Some delay \<Longrightarrow>
   attempts (snd (fst (checkStatus_resume r w))) = Suc (attempts (snd w)) \<and>
   attempts (snd w) < maxAttempts"
  by (cases r) (auto simp: poll_defs split_beta split: if_splits)

lemma pollLoop_unfold:
  "pollLoop env n w =
     (case timeoutId (snd (fst (checkStatus_resume (env n) w))) of
        None \<Rightarrow> checkStatus_resume (env n) w
      | Some delay \<Rightarrow>
          (fst (pollLoop env (Suc n)
                 (fst (fst (checkStatus_resume (env n) w)),
                  fst (checkStatus_send (snd (fst (checkStatus_resume (env n) w)))))),
           snd (checkStatus_resume (env n) w)
           @ snd (checkStatus_send (snd (fst (checkStatus_resume (env n) w))))
           @ snd (pollLoop env (Suc n)
                 (fst (fst (checkStatus_resume (env n) w)),
                  fst (checkStatus_send (snd (fst (checkStatus_resume (env n) w))))))))"
  by (subst pollLoop.simps) (simp add: split_beta Let_def split: option.splits)

lemma pollLoop_requests:
  "statusRequests (snd (pollLoop env n w)) \<le> maxAttempts - attempts (snd w)"
proof (induction env n w rule: pollLoop.induct)
  case (1 env n w)
  let ?s = "checkStatus_resume (env n) w"
  show ?case
  proof (cases "timeoutId (snd (fst ?s))")
    case None
    then show ?thesis
      by (subst pollLoop_unfold) (simp add: resume_sends_nothing)
  next
    case (Some delay)
    let ?c2 = "fst (checkStatus_send (snd (fst ?s)))"
    have ih: "statusRequests (snd (pollLoop env (Suc n) (fst (fst ?s), ?c2)))
                \<le> maxAttempts - attempts ?c2"
      using "1.IH" [of ?s "fst ?s" "snd ?s" delay "checkStatus_send (snd (fst ?s))"
                       ?c2 "snd (checkStatus_send (snd (fst ?s)))"] Some
      by simp
    have cnt: "attempts ?c2 = Suc (attempts (snd w))" "attempts (snd w) < maxAttempts"
      using resume_counts [OF Some] by (simp_all add: checkStatus_send_def)
    have one: "statusRequests (snd (checkStatus_send (snd (fst ?s)))) = 1"
      by (simp add: checkStatus_send_def statusRequests_def)
    have "statusRequests (snd (pollLoop env n w))
            = statusRequests (snd ?s) + 1
              + statusRequests (snd (pollLoop env (Suc n) (fst (fst ?s), ?c2)))"
      using Some one by (subst pollLoop_unfold) (simp add: statusRequests_def)
    with ih cnt show ?thesis
      by (simp add: resume_sends_nothing)
  qed
qed

lemma pollLoop_ends: "\<not> polling (snd (fst (pollLoop env n w)))"
proof (induction env n w rule: pollLoop.induct)
  case (1 env n w)
  let ?s = "checkStatus_resume (env n) w"
  show ?case
  proof (cases "timeoutId (snd (fst ?s))")
    case None
    then show ?thesis
      using resume_not_awaiting [of "env n" w]
      by (subst pollLoop_unfold) (simp add: polling_def pending_def)
  next
    case (Some delay)
    let ?c2 = "fst (checkStatus_send (snd (fst ?s)))"
    have "\<not> polling (snd (fst (pollLoop env (Suc n) (fst (fst ?s), ?c2))))"
      using "1.IH" [of ?s "fst ?s" "snd ?s" delay "checkStatus_send (snd (fst ?s))"
                       ?c2 "snd (checkStatus_send (snd (fst ?s)))"] Some
      by simp
    then show ?thesis
      using Some by (subst pollLoop_unfold) simp
  qed
qed

lemma runPoll_requests: "statusRequests (snd (snd (runPoll env d t registry))) \<le> 61"
proof (cases "mkPollKey d t \<in> registry")
  case True
  then show ?thesis
    by (simp add: runPoll_def pollProcessingStatus_def statusRequests_def)
next
  case False
  let ?c = "fst (checkStatus_send (newClosure d t))"
  have "statusRequests (snd (pollLoop env 0 (insert (mkPollKey d t) registry, ?c)))
          \<le> maxAttempts - attempts ?c"
    using pollLoop_requests [of env 0 "(insert (mkPollKey d t) registry, ?c)"] by simp
  then have "statusRequests (snd (pollLoop env 0 (insert (mkPollKey d t) registry, ?c))) \<le> 60"
    by (simp add: maxAttempts_def checkStatus_send_def newClosure_def)
  with False show ?thesis
    by (simp add: runPoll_def pollProcessingStatus_def checkStatus_send_def split_beta
          statusRequests_def)
qed

lemma runPoll_ends:
  "fst (snd (runPoll env d t registry)) = Some c \<Longrightarrow> \<not> polling c"
  using pollLoop_ends
  by (auto simp: runPoll_def pollProcessingStatus_def split_beta split: if_splits)

text \<open>
  Claim C6. A run of \<open>pollProcessingStatus\<close> sends at most 61 status requests, whatever
  the requests come back with, and it ends: the closure it leaves behind has neither a
  request outstanding nor a timer pending. The reason is the shared counter: a step
  after which the run still polls has incremented \<open>attempts\<close> and found it below 60
  before. At the limit a successful response with a status other than \<open>completed\<close> and
  \<open>failed\<close> ends the run with the result "Processing timeout. Please check back later.",
  and a 429 ends it without a result. A request error other than 429 that finds
  \<open>attempts\<close> at 3 or more ends the run with the result
  "Unable to check processing status. Please refresh the page.".
\<close>

theorem poller_terminates:
  "statusRequests (snd (snd (runPoll env d t registry))) \<le> 61
   \<and> (\<forall>c'. fst (snd (runPoll env d t registry)) = Some c' \<longrightarrow> \<not> polling c')
   \<and> (case checkStatus_resume r (registry, c) of
        ((registry', c'), es) \<Rightarrow>
          polling c' \<longrightarrow> attempts c' = Suc (attempts c) \<and> attempts c < 60)
   \<and> (processing_status p \<noteq> Some ''completed'' \<and> processing_status p \<noteq> Some ''failed''
        \<and> 60 \<le> attempts c \<longrightarrow>
        (case checkStatus_resume (Data p) (registry, c) of
           ((registry', c'), es) \<Rightarrow>
             \<not> polling c' \<and>
             resultsSet es = [\<lparr>type = Some ''error'',
               message = ''Processing timeout. Please check back later.''\<rparr>]))
   \<and> (60 \<le> attempts c \<longrightarrow>
        (case checkStatus_resume (Rejected (Some 429)) (registry, c) of
           ((registry', c'), es) \<Rightarrow> \<not> polling c' \<and> resultsSet es = []))
   \<and> (s \<noteq> Some 429 \<and> 3 \<le> attempts c \<longrightarrow>
        (case checkStatus_resume (Rejected s) (registry, c) of
           ((registry', c'), es) \<Rightarrow>
             \<not> polling c' \<and>
             resultsSet es = [\<lparr>type = Some ''error'',
               message = ''Unable to check processing status. Please refresh the page.''\<rparr>]))"
proof -
  have a: "statusRequests (snd (snd (runPoll env d t registry))) \<le> 61"
    by (rule runPoll_requests)
  have b: "\<forall>c'. fst (snd (runPoll env d t registry)) = Some c' \<longrightarrow> \<not> polling c'"
    using runPoll_ends by blast
  have c: "case checkStatus_resume r (registry, c) of
        ((registry', c'), es) \<Rightarrow>
          polling c' \<longrightarrow> attempts c' = Suc (attempts c) \<and> attempts c < 60"
    by (cases r) (auto simp: poll_defs split_beta split: if_splits option.splits)
  have d: "processing_status p \<noteq> Some ''completed'' \<and> processing_status p \<noteq> Some ''failed''
        \<and> 60 \<le> attempts c \<longrightarrow>
        (case checkStatus_resume (Data p) (registry, c) of
           ((registry', c'), es) \<Rightarrow>
             \<not> polling c' \<and>
             resultsSet es = [\<lparr>type = Some ''error'',
               message = ''Processing timeout. Please check back later.''\<rparr>])"
    by (simp add: poll_defs)
  have e: "60 \<le> attempts c \<longrightarrow>
        (case checkStatus_resume (Rejected (Some 429)) (registry, c) of
           ((registry', c'), es) \<Rightarrow> \<not> polling c' \<and> resultsSet es = [])"
    by (simp add: poll_defs)
  have f: "s \<noteq> Some 429 \<and> 3 \<le> attempts c \<longrightarrow>
        (case checkStatus_resume (Rejected s) (registry, c) of
           ((registry', c'), es) \<Rightarrow>
             \<not> polling c' \<and>
             resultsSet es = [\<lparr>type = Some ''error'',
               message = ''Unable to check processing status. Please refresh the page.''\<rparr>])"
    by (simp add: poll_defs)
  from a b c d e f show ?thesis by blast
qed


theorem poller_terminates_witness:
  "statusRequests (snd (snd (runPoll alwaysDown ''d7'' ''t1'' {}))) = 4
   \<and> fst (snd (runPoll alwaysDown ''d7'' ''t1'' {}))
       = Some \<lparr>documentId = ''d7'', taskId = ''t1'', attempts = 4, currentDelay = 16875,
               timeoutId = None, awaiting = False\<rparr>
   \<and> \<not> polling \<lparr>documentId = ''d7'', taskId = ''t1'', attempts = 4, currentDelay = 16875,
               timeoutId = None, awaiting = False\<rparr>
   \<and> (case checkStatus_resume (Rejected (Some 429))
            ({''d7-t1''}, (newClosure ''d7'' ''t1'')\<lparr>attempts := 59\<rparr>) of
        ((registry', c'), es) \<Rightarrow> polling c' \<and> attempts c' = 60)
   \<and> (case checkStatus_resume (Data \<lparr>processing_status = Some ''processing''\<rparr>)
            ({''d7-t1''}, (newClosure ''d7'' ''t1'')\<lparr>attempts := 60\<rparr>) of
        ((registry', c'), es) \<Rightarrow>
          \<not> polling c' \<and>
          resultsSet es = [\<lparr>type = Some ''error'',
            message = ''Processing timeout. Please check back later.''\<rparr>])
   \<and> (case checkStatus_resume (Rejected (Some 429))
            ({''d7-t1''}, (newClosure ''d7'' ''t1'')\<lparr>attempts := 60\<rparr>) of
        ((registry', c'), es) \<Rightarrow> \<not> polling c' \<and> resultsSet es = [])
   \<and> (case checkStatus_resume (Rejected (Some 500))
            ({''d7-t1''}, (newClosure ''d7'' ''t1'')\<lparr>attempts := 60\<rparr>) of
        ((registry', c'), es) \<Rightarrow>
          \<not> polling c' \<and>
          resultsSet es = [\<lparr>type = Some ''error'',
            message = ''Unable to check processing status. Please refresh the page.''\<rparr>])"
  using poller_terminates
          [where env = alwaysDown and d = "''d7''" and t = "''t1''" and registry = "{}"
             and r = "Rejected (Some 429)" and c = "(newClosure ''d7'' ''t1'')\<lparr>attempts := 59\<rparr>"
             and p = "\<lparr>processing_status = Some ''processing''\<rparr>" and s = "Some 500"]
        poller_terminates
          [where env = alwaysDown and d = "''d7''" and t = "''t1''" and registry = "{''d7-t1''}"
             and r = "Rejected (Some 429)" and c = "(newClosure ''d7'' ''t1'')\<lparr>attempts := 59\<rparr>"
             and p = "\<lparr>processing_status = Some ''processing''\<rparr>" and s = "Some 500"]
        poller_terminates
          [where env = alwaysDown and d = "''d7''" and t = "''t1''" and registry = "{''d7-t1''}"
             and r = "Rejected (Some 429)" and c = "(newClosure ''d7'' ''t1'')\<lparr>attempts := 60\<rparr>"
             and p = "\<lparr>processing_status = Some ''processing''\<rparr>" and s = "Some 500"]
  by (simp add: runPoll_def alwaysDown_def statusRequests_def page_eval split: prod.splits)

lemma sixty_one_requests_reached:
  "statusRequests (snd (snd (runPoll alwaysProcessing ''d7'' ''t1'' {}))) = 61"
  by (simp add: runPoll_def statusRequests_def alwaysProcessing_def page_eval)

lemma resume_key: "pollKey (snd (fst (checkStatus_resume r w))) = pollKey (snd w)"
  by (cases r) (simp_all add: poll_defs pollKey_def split_beta)

lemma resume_registry:
  "fst (fst (checkStatus_resume r w)) =
     (if polling (snd (fst (checkStatus_resume r w))) then fst w else fst w - {pollKey (snd w)})"
  by (cases r) (simp_all add: poll_defs pollKey_def split_beta)

lemma pollLoop_key_removed: "pollKey (snd w) \<notin> fst (fst (pollLoop env n w))"
proof (induction env n w rule: pollLoop.induct)
  case (1 env n w)
  let ?s = "checkStatus_resume (env n) w"
  show ?case
  proof (cases "timeoutId (snd (fst ?s))")
    case None
    then have "\<not> polling (snd (fst ?s))"
      using resume_not_awaiting [of "env n" w] by (simp add: polling_def pending_def)
    then have "pollKey (snd w) \<notin> fst (fst ?s)"
      by (subst resume_registry) simp
    with None show ?thesis
      by (subst pollLoop_unfold) simp
  next
    case (Some delay)
    let ?c2 = "fst (checkStatus_send (snd (fst ?s)))"
    have "pollKey (snd (fst (fst ?s), ?c2)) \<notin> fst (fst (pollLoop env (Suc n) (fst (fst ?s), ?c2)))"
      using "1.IH" [of ?s "fst ?s" "snd ?s" delay "checkStatus_send (snd (fst ?s))"
                       ?c2 "snd (checkStatus_send (snd (fst ?s)))"] Some
      by simp
    moreover have "pollKey ?c2 = pollKey (snd w)"
      using resume_key [of "env n" w] by (simp add: checkStatus_send_def pollKey_def)
    ultimately show ?thesis
      using Some by (subst pollLoop_unfold) simp
  qed
qed

lemma runPoll_key_removed:
  "mkPollKey d t \<notin> registry \<Longrightarrow> mkPollKey d t \<notin> fst (runPoll env d t registry)"
  using pollLoop_key_removed
          [of "(insert (mkPollKey d t) registry, fst (checkStatus_send (newClosure d t)))" env 0]
  by (simp add: runPoll_def pollProcessingStatus_def split_beta checkStatus_send_def
        newClosure_def pollKey_def)

text \<open>
  Claim C9. Every step of \<open>checkStatus\<close> after which the run no longer polls has removed
  the run's key from \<open>activePolls\<close> and left no timer pending, and a step after which it
  still polls has left the registry alone. The five ending paths are of that kind: status
  \<open>completed\<close>, status \<open>failed\<close>, a successful response at the attempt limit, a 429 at the
  attempt limit, and another error with \<open>attempts\<close> at 3 or more. Hence a run started on
  a registry without its key ends with the key absent from the registry, and a further
  call with the same \<open>documentId\<close> and \<open>taskId\<close> registers the key again, creates a fresh
  closure and sends a status request.
\<close>

theorem registry_cleanup:
  "(case checkStatus_resume r (registry, c) of
      ((registry', c'), es) \<Rightarrow>
        (\<not> polling c' \<longrightarrow> pollKey c \<notin> registry' \<and> timeoutId c' = None) \<and>
        (polling c' \<longrightarrow> registry' = registry))
   \<and> (((\<exists>p. r = Data p \<and> (processing_status p = Some ''completed''
                            \<or> processing_status p = Some ''failed''
                            \<or> maxAttempts \<le> attempts c))
        \<or> (r = Rejected (Some 429) \<and> maxAttempts \<le> attempts c)
        \<or> (\<exists>s. r = Rejected s \<and> s \<noteq> Some 429 \<and> 3 \<le> attempts c)) \<longrightarrow>
       \<not> polling (snd (fst (checkStatus_resume r (registry, c)))) \<and>
       pollKey c \<notin> fst (fst (checkStatus_resume r (registry, c))))
   \<and> (mkPollKey d t \<notin> registry \<longrightarrow>
        mkPollKey d t \<notin> fst (runPoll env d t registry) \<and>
        (\<exists>c'. fst (snd (runPoll env d t registry)) = Some c' \<and> \<not> polling c') \<and>
        pollProcessingStatus d t (fst (runPoll env d t registry))
          = (insert (mkPollKey d t) (fst (runPoll env d t registry)),
             Some ((newClosure d t)\<lparr>awaiting := True\<rparr>),
             [AxiosGet (statusPath d)]))"
proof -
  have a: "case checkStatus_resume r (registry, c) of
      ((registry', c'), es) \<Rightarrow>
        (\<not> polling c' \<longrightarrow> pollKey c \<notin> registry' \<and> timeoutId c' = None) \<and>
        (polling c' \<longrightarrow> registry' = registry)"
    using resume_registry [of r "(registry, c)"]
    by (auto simp: split_beta polling_def pending_def split: option.splits)
  have b: "((\<exists>p. r = Data p \<and> (processing_status p = Some ''completed''
                            \<or> processing_status p = Some ''failed''
                            \<or> maxAttempts \<le> attempts c))
        \<or> (r = Rejected (Some 429) \<and> maxAttempts \<le> attempts c)
        \<or> (\<exists>s. r = Rejected s \<and> s \<noteq> Some 429 \<and> 3 \<le> attempts c)) \<longrightarrow>
       \<not> polling (snd (fst (checkStatus_resume r (registry, c)))) \<and>
       pollKey c \<notin> fst (fst (checkStatus_resume r (registry, c)))"
  proof
    assume "(\<exists>p. r = Data p \<and> (processing_status p = Some ''completed''
                            \<or> processing_status p = Some ''failed''
                            \<or> maxAttempts \<le> attempts c))
        \<or> (r = Rejected (Some 429) \<and> maxAttempts \<le> attempts c)
        \<or> (\<exists>s. r = Rejected s \<and> s \<noteq> Some 429 \<and> 3 \<le> attempts c)"
    then have "\<not> polling (snd (fst (checkStatus_resume r (registry, c))))"
      by (elim disjE exE conjE) (simp_all add: poll_defs)
    with a show "\<not> polling (snd (fst (checkStatus_resume r (registry, c)))) \<and>
       pollKey c \<notin> fst (fst (checkStatus_resume r (registry, c)))"
      by (simp add: split_beta)
  qed
  have c: "mkPollKey d t \<notin> registry \<longrightarrow>
        mkPollKey d t \<notin> fst (runPoll env d t registry) \<and>
        (\<exists>c'. fst (snd (runPoll env d t registry)) = Some c' \<and> \<not> polling c') \<and>
        pollProcessingStatus d t (fst (runPoll env d t registry))
          = (insert (mkPollKey d t) (fst (runPoll env d t registry)),
             Some ((newClosure d t)\<lparr>awaiting := True\<rparr>),
             [AxiosGet (statusPath d)])"
  proof
    assume fresh: "mkPollKey d t \<notin> registry"
    then have gone: "mkPollKey d t \<notin> fst (runPoll env d t registry)"
      by (rule runPoll_key_removed)
    from fresh obtain c' where c': "fst (snd (runPoll env d t registry)) = Some c'"
      by (simp add: runPoll_def pollProcessingStatus_def split_beta)
    then have "\<not> polling c'"
      by (rule runPoll_ends)
    with c' gone show "mkPollKey d t \<notin> fst (runPoll env d t registry) \<and>
        (\<exists>c'. fst (snd (runPoll env d t registry)) = Some c' \<and> \<not> polling c') \<and>
        pollProcessingStatus d t (fst (runPoll env d t registry))
          = (insert (mkPollKey d t) (fst (runPoll env d t registry)),
             Some ((newClosure d t)\<lparr>awaiting := True\<rparr>),
             [AxiosGet (statusPath d)])"
      by (simp add: pollProcessingStatus_def checkStatus_send_def newClosure_def)
  qed
  from a b c show ?thesis by blast
qed

theorem registry_cleanup_witness:
  "(case checkStatus_resume (Data \<lparr>processing_status = Some ''completed''\<rparr>)
          ({''d7-t1'', ''d8-t2''}, (newClosure ''d7'' ''t1'')\<lparr>awaiting := True\<rparr>) of
      ((registry', c'), es) \<Rightarrow>
        \<not> polling c' \<and> registry' = {''d8-t2''} \<and> timeoutId c' = None)
   \<and> (case checkStatus_resume (Data \<lparr>processing_status = Some ''processing''\<rparr>)
          ({''d7-t1'', ''d8-t2''}, (newClosure ''d7'' ''t1'')\<lparr>awaiting := True\<rparr>) of
      ((registry', c'), es) \<Rightarrow> polling c' \<and> registry' = {''d7-t1'', ''d8-t2''})
   \<and> mkPollKey ''d7'' ''t1'' \<notin> {''d8-t2''}
   \<and> fst (runPoll alwaysDown ''d7'' ''t1'' {''d8-t2''}) = {''d8-t2''}
   \<and> pollProcessingStatus ''d7'' ''t1'' {''d8-t2''}
       = ({''d7-t1'', ''d8-t2''},
          Some \<lparr>documentId = ''d7'', taskId = ''t1'', attempts = 0, currentDelay = 5000,
                timeoutId = None, awaiting = True\<rparr>,
          [AxiosGet ''/documents/d7/processing-status''])"
  using registry_cleanup
          [where r = "Data \<lparr>processing_status = Some ''completed''\<rparr>"
             and registry = "{''d7-t1'', ''d8-t2''}"
             and c = "(newClosure ''d7'' ''t1'')\<lparr>awaiting := True\<rparr>"
             and d = "''d7''" and t = "''t1''" and env = alwaysDown]
        registry_cleanup
          [where r = "Data \<lparr>processing_status = Some ''processing''\<rparr>"
             and registry = "{''d7-t1'', ''d8-t2''}"
             and c = "(newClosure ''d7'' ''t1'')\<lparr>awaiting := True\<rparr>"
             and d = "''d7''" and t = "''t1''" and env = alwaysDown]
        registry_cleanup
          [where r = "Rejected (Some 500)"
             and registry = "{''d8-t2''}"
             and c = "(newClosure ''d7'' ''t1'')\<lparr>attempts := 3, awaiting := True\<rparr>"
             and d = "''d7''" and t = "''t1''" and env = alwaysDown]
  by (auto simp add: runPoll_def alwaysDown_def page_eval split: prod.splits)

section \<open>Deduplication of polls\<close>

text \<open>
  A call whose key is registered returns at once: the registry is as before, no closure
  is created and no request is sent. As long as nobody calls a \<open>cleanup\<close> function that
  \<open>pollProcessingStatus\<close> returned, this keeps the polling closures of the page at one per
  key.
\<close>

lemma registered_call_ignored:
  "mkPollKey d t \<in> registry \<Longrightarrow>
   pollProcessingStatus d t registry = (registry, None, []) \<and>
   pageStep (Call d t) (registry, cs) = (registry, cs)"
  by (simp add: pollProcessingStatus_def)

lemma send_key: "pollKey (fst (checkStatus_send c)) = pollKey c"
  by (simp add: checkStatus_send_def pollKey_def)

lemma send_polling: "polling (fst (checkStatus_send c))"
  by (simp add: checkStatus_send_def polling_def)

lemma pageStep_inv:
  assumes inv: "pageInv page" and nc: "\<not> isCancel e"
  shows "pageInv (pageStep e page)"
proof (cases page)
  case (Pair registry cs)
  note inv' = inv [unfolded Pair pageInv_def, simplified]
  show ?thesis
  proof (cases e)
    case (Call d t)
    show ?thesis
    proof (cases "mkPollKey d t \<in> registry")
      case True
      with inv Pair Call show ?thesis by (simp add: pollProcessingStatus_def)
    next
      case False
      have new: "pollKey (fst (checkStatus_send (newClosure d t))) = mkPollKey d t"
        by (simp add: checkStatus_send_def newClosure_def pollKey_def)
      have step: "pageStep e page
          = (insert (mkPollKey d t) registry, cs @ [fst (checkStatus_send (newClosure d t))])"
        using False Pair Call by (simp add: pollProcessingStatus_def split_beta)
      show ?thesis
        unfolding step pageInv_def using inv' False new
        by (auto simp: nth_append less_Suc_eq)
    qed
  next
    case (Settles i r)
    show ?thesis
    proof (cases "i < length cs \<and> awaiting (cs ! i)")
      case False
      with inv Pair Settles show ?thesis by auto
    next
      case True
      let ?s = "checkStatus_resume r (registry, cs ! i)"
      have step: "pageStep e page = (fst (fst ?s), cs[i := snd (fst ?s)])"
        using True Pair Settles by (simp add: split_beta)
      have key: "pollKey (snd (fst ?s)) = pollKey (cs ! i)"
        using resume_key [of r "(registry, cs ! i)"] by simp
      have reg: "fst (fst ?s) = (if polling (snd (fst ?s)) then registry else registry - {pollKey (cs ! i)})"
        using resume_registry [of r "(registry, cs ! i)"] by simp
      have was: "polling (cs ! i)"
        using True by (simp add: polling_def)
      show ?thesis
        unfolding step pageInv_def using inv' True key reg was
        by (auto simp: nth_list_update split: if_splits)
    qed
  next
    case (Fires i)
    show ?thesis
    proof (cases "i < length cs \<and> pending (cs ! i)")
      case False
      with inv Pair Fires show ?thesis by auto
    next
      case True
      have step: "pageStep e page = (registry, cs[i := fst (checkStatus_send (cs ! i))])"
        using True Pair Fires by simp
      have was: "polling (cs ! i)"
        using True by (simp add: polling_def)
      show ?thesis
        unfolding step pageInv_def using inv' True was send_key [of "cs ! i"] send_polling [of "cs ! i"]
        by (auto simp: nth_list_update split: if_splits)
    qed
  next
    case (Cancel i)
    with nc show ?thesis by simp
  qed
qed

lemma pageRun_inv:
  "pageInv page \<Longrightarrow> \<not> list_ex isCancel evs \<Longrightarrow> pageInv (pageRun evs page)"
  by (induction evs arbitrary: page) (simp_all add: pageStep_inv)

lemma filter_at_most_one:
  "(\<forall>i < length xs. \<forall>j < length xs. i \<noteq> j \<and> P (xs ! i) \<and> P (xs ! j) \<longrightarrow> f (xs ! i) \<noteq> f (xs ! j))
   \<Longrightarrow> length (filter (\<lambda>x. f x = k \<and> P x) xs) \<le> 1"
proof (induction xs)
  case Nil
  then show ?case by simp
next
  case (Cons x xs)
  have tl: "\<forall>i < length xs. \<forall>j < length xs. i \<noteq> j \<and> P (xs ! i) \<and> P (xs ! j) \<longrightarrow> f (xs ! i) \<noteq> f (xs ! j)"
  proof (intro allI impI)
    fix i j assume "i < length xs" "j < length xs" "i \<noteq> j \<and> P (xs ! i) \<and> P (xs ! j)"
    then show "f (xs ! i) \<noteq> f (xs ! j)"
      using Cons.prems [rule_format, of "Suc i" "Suc j"] by simp
  qed
  show ?case
  proof (cases "f x = k \<and> P x")
    case False
    then show ?thesis using Cons.IH [OF tl] by auto
  next
    case True
    have "filter (\<lambda>x. f x = k \<and> P x) xs = []"
    proof (rule ccontr)
      assume "filter (\<lambda>x. f x = k \<and> P x) xs \<noteq> []"
      then obtain y where "y \<in> set xs" "f y = k" "P y"
        by (auto simp: filter_empty_conv)
      then obtain j where "j < length xs" "xs ! j = y"
        by (auto simp: in_set_conv_nth)
      then show False
        using Cons.prems [rule_format, of 0 "Suc j"] True \<open>f y = k\<close> \<open>P y\<close> by simp
    qed
    with True show ?thesis by simp
  qed
qed

lemma one_poll_per_key_without_cancel:
  assumes "\<not> list_ex isCancel evs"
  shows "length (pollsFor key (pageRun evs ({}, []))) \<le> 1"
proof -
  have "pageInv ({}, [])"
    by (simp add: pageInv_def)
  then have "pageInv (pageRun evs ({}, []))"
    using assms by (rule pageRun_inv)
  then show ?thesis
    unfolding pollsFor_def pageInv_def
    using filter_at_most_one [of "snd (pageRun evs ({}, []))" polling pollKey key]
    by blast
qed

text \<open>
  Claim C1 says that at any time at most one poll is active per key. The \<open>cleanup\<close>
  function that a call returns deletes the key but does not stop a \<open>checkStatus\<close> that is
  suspended at its \<open>await\<close>. When it is called while the first request of a run is
  outstanding, as the teardown of \<open>useProcessingStatusPoll\<close> does, and
  \<open>pollProcessingStatus\<close> is then called again with the same identifiers, the second call
  finds the key absent and starts a second run: two closures with the key \<open>d7-t1\<close> have a
  request outstanding, and after each got the answer \<open>processing\<close> and its timer fired
  both are still polling.
\<close>

theorem duplicate_poll_after_cancel:
  "pageRun [Call ''d7'' ''t1'', Cancel 0, Call ''d7'' ''t1''] ({}, [])
     = ({''d7-t1''},
        [\<lparr>documentId = ''d7'', taskId = ''t1'', attempts = 0, currentDelay = 5000,
          timeoutId = None, awaiting = True\<rparr>,
         \<lparr>documentId = ''d7'', taskId = ''t1'', attempts = 0, currentDelay = 5000,
          timeoutId = None, awaiting = True\<rparr>])
   \<and> length (pollsFor ''d7-t1''
        (pageRun [Call ''d7'' ''t1'', Cancel 0, Call ''d7'' ''t1''] ({}, []))) = 2
   \<and> length (pollsFor ''d7-t1''
        (pageRun [Call ''d7'' ''t1'', Cancel 0, Call ''d7'' ''t1'',
                  Settles 0 (Data \<lparr>processing_status = Some ''processing''\<rparr>),
                  Settles 1 (Data \<lparr>processing_status = Some ''processing''\<rparr>),
                  Fires 0, Fires 1] ({}, []))) = 2"
  by (simp add: page_eval pollsFor_def)

section \<open>Gating of the queue's automatic refresh\<close>

lemma terminal_iff: "(status doc = Completed \<or> status doc = Failed) = (\<not> (status doc = Processing \<or> status doc = Uploaded))"
  by (cases "status doc") simp_all

lemma hasActiveDocs_iff:
  "hasActiveDocs docs = (\<exists>doc \<in> set docs. status doc = Processing \<or> status doc = Uploaded)"
  by (simp add: hasActiveDocs_def list_ex_iff)

lemma no_active_when_terminal:
  "(\<forall>doc \<in> set docs. status doc = Completed \<or> status doc = Failed) = (\<not> hasActiveDocs docs)"
  by (simp add: hasActiveDocs_iff terminal_iff)

lemma adaptivePolling_timer:
  "pollTimer (adaptivePolling q) = (if hasActiveDocs (documents q) then Some (pollDelay q) else None)"
  by (simp add: queue_defs)

lemma adaptivePolling_rest:
  "documents (adaptivePolling q) = documents q \<and> pollDelay (adaptivePolling q) = pollDelay q"
  by (simp add: queue_defs)

lemma queueStep_quiet:
  assumes "\<not> hasActiveDocs (documents q)" and "pollTimer q = None" and "\<not> bringsActiveDocs e"
  shows "\<not> hasActiveDocs (documents (fst (queueStep e q))) \<and>
         pollTimer (fst (queueStep e q)) = None \<and> \<not> snd (queueStep e q)"
proof (cases e)
  case (DocumentsUpdated docs)
  with assms show ?thesis by (simp add: queue_defs)
next
  case (FetchSettled token outcome)
  with assms show ?thesis
    by (cases token; cases outcome) (auto simp: queue_defs split: if_splits)
next
  case TimerFired
  with assms show ?thesis by simp
next
  case PropsChanged
  with assms show ?thesis by (simp add: queue_defs)
qed

lemma queueRun_quiet:
  "\<not> hasActiveDocs (documents q) \<Longrightarrow> pollTimer q = None \<Longrightarrow> \<not> list_ex bringsActiveDocs evs \<Longrightarrow>
   snd (queueRun evs q) = 0 \<and> pollTimer (fst (queueRun evs q)) = None"
proof (induction evs arbitrary: q)
  case Nil
  then show ?case by simp
next
  case (Cons e evs)
  have step: "\<not> hasActiveDocs (documents (fst (queueStep e q))) \<and>
         pollTimer (fst (queueStep e q)) = None \<and> \<not> snd (queueStep e q)"
    using Cons.prems by (intro queueStep_quiet) simp_all
  then have "snd (queueRun evs (fst (queueStep e q))) = 0 \<and>
             pollTimer (fst (queueRun evs (fst (queueStep e q)))) = None"
    using Cons.IH Cons.prems by simp
  with step show ?case
    by (simp add: split_beta Let_def)
qed

text \<open>
  Claim C3, as the spec states it, ends: once every document is in a terminal display
  status or the list is empty, no further automatic refresh is ever scheduled. The gate
  is evaluated anew after every update of \<open>documents\<close>. With the single document
  \<open>Completed\<close>, and likewise with the empty list the component starts from, no timer is
  pending; a fetch that then succeeds (the fetch at mount, or the Refresh button of the
  queue header) and lists a document under analysis stores a \<open>Processing\<close> row, the
  effect sets the timer again, and when it fires an automatic fetch starts.
\<close>

theorem refresh_resumes_counterexample:
  "map status (documents (adaptivePolling (initialQueue\<lparr>documents := [completedRow]\<rparr>)))
     = [Completed]
   \<and> pollTimer (adaptivePolling (initialQueue\<lparr>documents := [completedRow]\<rparr>)) = None
   \<and> queueRun [FetchSettled (Some ''tok'') (Fetched (Wrapped [analysingRawDoc])), TimerFired]
        (adaptivePolling (initialQueue\<lparr>documents := [completedRow]\<rparr>))
       = (\<lparr>documents = [processingRow], isLoading = False, pollDelay = 10000,
           pollTimer = None\<rparr>, 1)
   \<and> documents (adaptivePolling initialQueue) = []
   \<and> pollTimer (adaptivePolling initialQueue) = None
   \<and> snd (queueRun [FetchSettled (Some ''tok'') (Fetched (Wrapped [analysingRawDoc])),
                     TimerFired]
          (adaptivePolling initialQueue)) \<noteq> 0"
  by (simp add: initialQueue_def completedRow_def processingRow_def analysingRawDoc_def
        queue_defs hasActiveDocs_def formatDoc_def orElse_def toLowerCase_def lowerChar_def
        mapApiStatusToDisplayStatus_queueUtils_def)

text \<open>
  Claim C3, amended. The adaptive polling effect clears the previous refresh timer and
  schedules a new automatic fetch, after \<open>pollDelay\<close>, if and only if some document is
  \<open>Processing\<close> or \<open>Uploaded\<close>; the timer it leaves does not depend on the timer it found.
  This is what happens after every update of \<open>documents\<close>, whether the list comes from
  \<open>setDocuments\<close> directly or from a successful fetch. Once every document is \<open>Completed\<close>
  or \<open>Failed\<close>, or the list is empty, no timer is pending, and until an event stores a
  list with an active document no automatic fetch is started and no timer is scheduled.
\<close>

theorem auto_refresh_gating:
  "pollTimer (adaptivePolling q)
     = (if (\<exists>doc \<in> set (documents q). status doc = Processing \<or> status doc = Uploaded)
        then Some (pollDelay q) else None)
   \<and> (case queueStep (DocumentsUpdated docs) q of
        (q', started) \<Rightarrow>
          documents q' = docs \<and>
          pollTimer q' = (if (\<exists>doc \<in> set docs. status doc = Processing \<or> status doc = Uploaded)
                          then Some (pollDelay q) else None))
   \<and> (tk \<noteq> [] \<longrightarrow>
        (case queueStep (FetchSettled (Some tk) (Fetched body)) q of
           (q', started) \<Rightarrow>
             documents q' = map formatDoc (docsOf body) \<and>
             pollTimer q' = (if (\<exists>doc \<in> set (documents q').
                                    status doc = Processing \<or> status doc = Uploaded)
                             then Some 10000 else None)))
   \<and> ((\<forall>doc \<in> set (documents q). status doc = Completed \<or> status doc = Failed) \<longrightarrow>
        pollTimer (adaptivePolling q) = None \<and>
        (\<not> list_ex bringsActiveDocs evs \<longrightarrow>
           snd (queueRun evs (adaptivePolling q)) = 0 \<and>
           pollTimer (fst (queueRun evs (adaptivePolling q))) = None))"
proof -
  have a: "pollTimer (adaptivePolling q)
     = (if (\<exists>doc \<in> set (documents q). status doc = Processing \<or> status doc = Uploaded)
        then Some (pollDelay q) else None)"
    by (simp add: adaptivePolling_timer hasActiveDocs_iff)
  have b: "case queueStep (DocumentsUpdated docs) q of
        (q', started) \<Rightarrow>
          documents q' = docs \<and>
          pollTimer q' = (if (\<exists>doc \<in> set docs. status doc = Processing \<or> status doc = Uploaded)
                          then Some (pollDelay q) else None)"
    by (simp add: adaptivePolling_timer adaptivePolling_rest hasActiveDocs_iff)
  have c: "tk \<noteq> [] \<longrightarrow>
        (case queueStep (FetchSettled (Some tk) (Fetched body)) q of
           (q', started) \<Rightarrow>
             documents q' = map formatDoc (docsOf body) \<and>
             pollTimer q' = (if (\<exists>doc \<in> set (documents q').
                                    status doc = Processing \<or> status doc = Uploaded)
                             then Some 10000 else None))"
    by (simp add: adaptivePolling_timer adaptivePolling_rest hasActiveDocs_iff
          handleFetchDocuments_def fetchDocuments_def)
  have d: "(\<forall>doc \<in> set (documents q). status doc = Completed \<or> status doc = Failed) \<longrightarrow>
        pollTimer (adaptivePolling q) = None \<and>
        (\<not> list_ex bringsActiveDocs evs \<longrightarrow>
           snd (queueRun evs (adaptivePolling q)) = 0 \<and>
           pollTimer (fst (queueRun evs (adaptivePolling q))) = None)"
  proof (intro impI conjI)
    assume t: "\<forall>doc \<in> set (documents q). status doc = Completed \<or> status doc = Failed"
    then have quiet: "\<not> hasActiveDocs (documents q)"
      by (simp add: no_active_when_terminal)
    then show none: "pollTimer (adaptivePolling q) = None"
      by (simp add: adaptivePolling_timer)
    assume e: "\<not> list_ex bringsActiveDocs evs"
    have "snd (queueRun evs (adaptivePolling q)) = 0 \<and>
          pollTimer (fst (queueRun evs (adaptivePolling q))) = None"
      using quiet none e by (intro queueRun_quiet) (simp_all add: adaptivePolling_rest)
    then show "snd (queueRun evs (adaptivePolling q)) = 0"
      and "pollTimer (fst (queueRun evs (adaptivePolling q))) = None"
      by simp_all
  qed
  from a b c d show ?thesis by blast
qed

theorem auto_refresh_gating_witness:
  "pollTimer (adaptivePolling (initialQueue\<lparr>documents := [completedRow, processingRow],
                                  pollTimer := Some 40000\<rparr>)) = Some 10000
   \<and> (case queueStep (FetchSettled (Some ''tok'') (Fetched (Wrapped [analysingRawDoc])))
            (initialQueue\<lparr>pollDelay := 40000\<rparr>) of
        (q', started) \<Rightarrow> documents q' = [processingRow] \<and> pollTimer q' = Some 10000)
   \<and> pollTimer (adaptivePolling (initialQueue\<lparr>documents := [completedRow],
                                    pollTimer := Some 40000\<rparr>)) = None
   \<and> queueRun [TimerFired, FetchSettled (Some ''tok'') (FetchFailed (Some 429)), PropsChanged,
               DocumentsUpdated []]
        (adaptivePolling (initialQueue\<lparr>documents := [completedRow], pollTimer := Some 40000\<rparr>))
       = (\<lparr>documents = [], isLoading = False, pollDelay = 20000, pollTimer = None\<rparr>, 0)"
  using auto_refresh_gating
          [where q = "initialQueue\<lparr>documents := [completedRow, processingRow],
                        pollTimer := Some 40000\<rparr>"
             and docs = "[processingRow]" and tk = "''tok''"
             and body = "Wrapped [analysingRawDoc]" and evs = "[]"]
        auto_refresh_gating
          [where q = "initialQueue\<lparr>pollDelay := 40000\<rparr>"
             and docs = "[processingRow]" and tk = "''tok''"
             and body = "Wrapped [analysingRawDoc]" and evs = "[]"]
        auto_refresh_gating
          [where q = "initialQueue\<lparr>documents := [completedRow], pollTimer := Some 40000\<rparr>"
             and docs = "[]" and tk = "''tok''" and body = "Wrapped [analysingRawDoc]"
             and evs = "[TimerFired, FetchSettled (Some ''tok'') (FetchFailed (Some 429)),
                         PropsChanged, DocumentsUpdated []]"]
  by (simp add: initialQueue_def completedRow_def processingRow_def analysingRawDoc_def
        queue_defs hasActiveDocs_def formatDoc_def orElse_def toLowerCase_def lowerChar_def
        mapApiStatusToDisplayStatus_queueUtils_def)

section \<open>Error reporting of the document fetch\<close>

text \<open>
  Claim C8. When the request of \<open>fetchDocuments\<close> fails, the error is rethrown whatever
  its status. The toast "Authentication expired. Please log in again." is shown exactly
  when the status is 401; every other failure whose status is not 429, a failure without
  a response included, shows "Failed to load documents. Please try again."; a 429 shows
  no error toast.
\<close>

theorem fetch_error_reporting:
  "token \<noteq> [] \<longrightarrow>
     (case fetchDocuments token (FetchFailed s) of
        (result, es) \<Rightarrow>
          result = Inl s
          \<and> (''Authentication expired. Please log in again.'' \<in> set (errorToasts es)
               \<longleftrightarrow> s = Some 401)
          \<and> (s = Some 401 \<longrightarrow> errorToasts es = [''Authentication expired. Please log in again.''])
          \<and> (s \<noteq> Some 401 \<and> s \<noteq> Some 429 \<longrightarrow>
               errorToasts es = [''Failed to load documents. Please try again.''])
          \<and> (s = Some 429 \<longrightarrow> errorToasts es = []))"
  by (simp add: fetchDocuments_def)

theorem fetch_error_reporting_witness:
  "''tok'' \<noteq> []
   \<and> fetchDocuments ''tok'' (FetchFailed (Some 401))
       = (Inl (Some 401), [AxiosGet ''/documents/'',
                           ToastError ''Authentication expired. Please log in again.''])
   \<and> fetchDocuments ''tok'' (FetchFailed (Some 500))
       = (Inl (Some 500), [AxiosGet ''/documents/'',
                           ToastError ''Failed to load documents. Please try again.''])
   \<and> fetchDocuments ''tok'' (FetchFailed None)
       = (Inl None, [AxiosGet ''/documents/'',
                     ToastError ''Failed to load documents. Please try again.''])
   \<and> fetchDocuments ''tok'' (FetchFailed (Some 429)) = (Inl (Some 429), [AxiosGet ''/documents/''])
   \<and> errorToasts (snd (fetchDocuments ''tok'' (FetchFailed (Some 429)))) = []"
  using fetch_error_reporting [where token = "''tok''" and s = "Some 401"]
        fetch_error_reporting [where token = "''tok''" and s = "Some 500"]
        fetch_error_reporting [where token = "''tok''" and s = "None"]
        fetch_error_reporting [where token = "''tok''" and s = "Some 429"]
  by (simp add: fetchDocuments_def)

section \<open>The two status mappers\<close>

lemmas mapper_defs = mapApiStatusToDisplayStatus_queueUtils_def
  mapApiStatusToDisplayStatus_usagestatsUtils_def

text \<open>
  Claim C10. The two functions named \<open>mapApiStatusToDisplayStatus\<close> differ. On a string
  whose lower-case form is no \<open>case\<close> label of either, and on undefined, the one of
  queueUtils returns \<open>Uploaded\<close> and the one of usagestatsUtils returns \<open>Other\<close>. The
  words \<open>complete\<close>, \<open>finished\<close>, \<open>processed\<close> and \<open>successful\<close>, in any capitalisation,
  are \<open>Completed\<close> for usagestatsUtils and fall through to \<open>Uploaded\<close> in queueUtils. Both
  are defined on every input, and usagestatsUtils returns one of five texts.
\<close>

theorem mappers_diverge:
  "(toLowerCase s \<notin> set recognized \<longrightarrow>
      mapApiStatusToDisplayStatus_queueUtils (Some s) = Uploaded \<and>
      mapApiStatusToDisplayStatus_usagestatsUtils (Some s) = ''Other'')
   \<and> mapApiStatusToDisplayStatus_queueUtils None = Uploaded
   \<and> mapApiStatusToDisplayStatus_usagestatsUtils None = ''Other''
   \<and> (toLowerCase s = ''complete'' \<or> toLowerCase s = ''finished''
        \<or> toLowerCase s = ''processed'' \<or> toLowerCase s = ''successful'' \<longrightarrow>
      mapApiStatusToDisplayStatus_usagestatsUtils (Some s) = ''Completed'' \<and>
      mapApiStatusToDisplayStatus_queueUtils (Some s) = Uploaded)
   \<and> statusText (mapApiStatusToDisplayStatus_queueUtils None)
        \<noteq> mapApiStatusToDisplayStatus_usagestatsUtils None
   \<and> mapApiStatusToDisplayStatus_usagestatsUtils x
        \<in> {''Completed'', ''Processing'', ''Failed'', ''Uploaded'', ''Other''}"
proof -
  have a: "toLowerCase s \<notin> set recognized \<longrightarrow>
      mapApiStatusToDisplayStatus_queueUtils (Some s) = Uploaded \<and>
      mapApiStatusToDisplayStatus_usagestatsUtils (Some s) = ''Other''"
    by (simp add: mapper_defs recognized_def)
  have b: "mapApiStatusToDisplayStatus_queueUtils None = Uploaded
     \<and> mapApiStatusToDisplayStatus_usagestatsUtils None = ''Other''"
    by (simp add: mapper_defs)
  have c: "toLowerCase s = ''complete'' \<or> toLowerCase s = ''finished''
        \<or> toLowerCase s = ''processed'' \<or> toLowerCase s = ''successful'' \<longrightarrow>
      mapApiStatusToDisplayStatus_usagestatsUtils (Some s) = ''Completed'' \<and>
      mapApiStatusToDisplayStatus_queueUtils (Some s) = Uploaded"
    by (auto simp: mapper_defs)
  have d: "statusText (mapApiStatusToDisplayStatus_queueUtils None)
        \<noteq> mapApiStatusToDisplayStatus_usagestatsUtils None"
    by (simp add: mapper_defs)
  have e: "mapApiStatusToDisplayStatus_usagestatsUtils x
        \<in> {''Completed'', ''Processing'', ''Failed'', ''Uploaded'', ''Other''}"
    by (cases x) (simp_all add: mapper_defs)
  from a b c d e show ?thesis by blast
qed

lemma mappers_agree_on_queue_keywords:
  "statusText (mapApiStatusToDisplayStatus_queueUtils x) = mapApiStatusToDisplayStatus_usagestatsUtils x
   \<longleftrightarrow> (\<exists>s. x = Some s \<and> toLowerCase s \<in> set recognized
            \<and> toLowerCase s \<notin> {''complete'', ''finished'', ''processed'', ''successful''})"
  by (cases x) (auto simp: mapper_defs recognized_def)

theorem mappers_diverge_witness:
  "toLowerCase ''Archived'' \<notin> set recognized
   \<and> mapApiStatusToDisplayStatus_queueUtils (Some ''Archived'') = Uploaded
   \<and> mapApiStatusToDisplayStatus_usagestatsUtils (Some ''Archived'') = ''Other''
   \<and> toLowerCase ''Finished'' = ''finished''
   \<and> mapApiStatusToDisplayStatus_usagestatsUtils (Some ''Finished'') = ''Completed''
   \<and> mapApiStatusToDisplayStatus_queueUtils (Some ''Finished'') = Uploaded
   \<and> mapApiStatusToDisplayStatus_usagestatsUtils (Some ''complete'') = ''Completed''
   \<and> mapApiStatusToDisplayStatus_queueUtils (Some ''complete'') = Uploaded
   \<and> mapApiStatusToDisplayStatus_usagestatsUtils (Some ''processed'') = ''Completed''
   \<and> mapApiStatusToDisplayStatus_queueUtils (Some ''processed'') = Uploaded
   \<and> mapApiStatusToDisplayStatus_usagestatsUtils (Some ''successful'') = ''Completed''
   \<and> mapApiStatusToDisplayStatus_queueUtils (Some ''successful'') = Uploaded"
  using mappers_diverge [where s = "''Archived''" and x = None]
        mappers_diverge [where s = "''Finished''" and x = None]
        mappers_diverge [where s = "''complete''" and x = None]
        mappers_diverge [where s = "''processed''" and x = None]
        mappers_diverge [where s = "''successful''" and x = None]
  by (simp add: toLowerCase_def lowerChar_def recognized_def)

section \<open>The upload hand-off\<close>

lemmas upload_defs = handleUpload_def pollProcessingStatus_def checkStatus_send_def
  newClosure_def reviewPath_def statusRequests_def Let_def

lemma upload_without_file_does_nothing:
  "handleUpload None token outcome registry = ((registry, None), [])"
  by (simp add: handleUpload_def)

text \<open>
  Claim C7, as the spec states it, says that without a token in localStorage the result
  of \<open>handleUpload\<close> is the error "Authentication required. Please log in to upload
  documents.". \<open>handleUpload\<close> first returns when no file has been selected: without a
  file and without a token it does nothing, and no result is set.
\<close>

theorem upload_without_file_counterexample:
  "snd (handleUpload None None Threw {}) = []
   \<and> resultsSet (snd (handleUpload None None Threw {}))
       \<noteq> [\<lparr>type = Some ''error'',
            message = ''Authentication required. Please log in to upload documents.''\<rparr>]"
  by (simp add: handleUpload_def)

text \<open>
  Claim C7, amended. When a file has been selected: without a token (none, or an empty
  one) the result is the error "Authentication required. Please log in to upload
  documents." and no upload request is made; with a token exactly one upload request is
  made, and if it responds with HTTP 202 and a \<open>processing\<close> field the result is the
  processing message "AI analysis in progress..." and \<open>pollProcessingStatus\<close> is called
  with the returned \<open>document_id\<close> and \<open>task_id\<close> (which, for a key not yet registered,
  registers the key and sends the first status request); for any other response with a
  body the result is the success message "Document uploaded successfully!" with
  navigation to the review page scheduled after 1500 ms; and if the upload request
  throws, the result is the error "Upload failed. Try again.".
\<close>

theorem upload_handoff:
  "(case handleUpload (Some f) token outcome registry of
      ((registry', c), es) \<Rightarrow>
        (token = None \<or> token = Some [] \<longrightarrow>
           resultsSet es = [\<lparr>type = Some ''error'',
             message = ''Authentication required. Please log in to upload documents.''\<rparr>]
           \<and> uploadRequests es = 0 \<and> statusRequests es = 0 \<and> navigations es = []
           \<and> registry' = registry \<and> c = None)
      \<and> ((\<exists>tk. token = Some tk \<and> tk \<noteq> []) \<longrightarrow>
           uploadRequests es = 1
           \<and> (\<forall>body p. outcome = Responded 202 (Some body) \<and> processing body = Some p \<longrightarrow>
                 resultsSet es = [\<lparr>type = Some ''processing'',
                   message = ''AI analysis in progress...''\<rparr>]
                 \<and> navigations es = []
                 \<and> registry' = fst (pollProcessingStatus (templateString (documentIdOf body))
                                     (templateString (task_id p)) registry)
                 \<and> c = fst (snd (pollProcessingStatus (templateString (documentIdOf body))
                                     (templateString (task_id p)) registry)))
           \<and> (\<forall>st body. outcome = Responded st (Some body)
                   \<and> (st \<noteq> 202 \<or> processing body = None) \<longrightarrow>
                 resultsSet es = [\<lparr>type = Some ''success'',
                   message = ''Document uploaded successfully!''\<rparr>]
                 \<and> navigations es
                     = [(''/document/'' @ templateString (documentIdOf body) @ ''/review'', 1500)]
                 \<and> statusRequests es = 0 \<and> registry' = registry \<and> c = None)
           \<and> (outcome = Threw \<longrightarrow>
                 resultsSet es = [\<lparr>type = Some ''error'', message = ''Upload failed. Try again.''\<rparr>]
                 \<and> navigations es = [] \<and> statusRequests es = 0
                 \<and> registry' = registry \<and> c = None)))
   \<and> (tk \<noteq> [] \<and> processing body = Some \<lparr>task_id = Some t\<rparr>
        \<and> data body = Some \<lparr>document_id = Some d\<rparr> \<and> mkPollKey d t \<notin> registry \<longrightarrow>
        handleUpload (Some f) (Some tk) (Responded 202 (Some body)) registry
          = ((insert (mkPollKey d t) registry, Some ((newClosure d t)\<lparr>awaiting := True\<rparr>)),
             [SetIsUploading True, AxiosPost ''/documents/upload'',
              SetUploadResult \<lparr>type = Some ''processing'',
                message = ''AI analysis in progress...''\<rparr>,
              AxiosGet (statusPath d),
              SetIsUploading False]))"
proof -
  have a: "case handleUpload (Some f) token outcome registry of
      ((registry', c), es) \<Rightarrow>
        (token = None \<or> token = Some [] \<longrightarrow>
           resultsSet es = [\<lparr>type = Some ''error'',
             message = ''Authentication required. Please log in to upload documents.''\<rparr>]
           \<and> uploadRequests es = 0 \<and> statusRequests es = 0 \<and> navigations es = []
           \<and> registry' = registry \<and> c = None)
      \<and> ((\<exists>tk. token = Some tk \<and> tk \<noteq> []) \<longrightarrow>
           uploadRequests es = 1
           \<and> (\<forall>body p. outcome = Responded 202 (Some body) \<and> processing body = Some p \<longrightarrow>
                 resultsSet es = [\<lparr>type = Some ''processing'',
                   message = ''AI analysis in progress...''\<rparr>]
                 \<and> navigations es = []
                 \<and> registry' = fst (pollProcessingStatus (templateString (documentIdOf body))
                                     (templateString (task_id p)) registry)
                 \<and> c = fst (snd (pollProcessingStatus (templateString (documentIdOf body))
                                     (templateString (task_id p)) registry)))
           \<and> (\<forall>st body. outcome = Responded st (Some body)
                   \<and> (st \<noteq> 202 \<or> processing body = None) \<longrightarrow>
                 resultsSet es = [\<lparr>type = Some ''success'',
                   message = ''Document uploaded successfully!''\<rparr>]
                 \<and> navigations es
                     = [(''/document/'' @ templateString (documentIdOf body) @ ''/review'', 1500)]
                 \<and> statusRequests es = 0 \<and> registry' = registry \<and> c = None)
           \<and> (outcome = Threw \<longrightarrow>
                 resultsSet es = [\<lparr>type = Some ''error'', message = ''Upload failed. Try again.''\<rparr>]
                 \<and> navigations es = [] \<and> statusRequests es = 0
                 \<and> registry' = registry \<and> c = None))"
  proof (cases outcome)
    case Threw
    then show ?thesis by (auto simp: upload_defs)
  next
    case (Responded st b)
    show ?thesis
    proof (cases b)
      case None
      with Responded show ?thesis by (auto simp: upload_defs)
    next
      case (Some body)
      with Responded show ?thesis
        by (cases "processing body") (auto simp: upload_defs split: if_splits)
    qed
  qed
  have b: "tk \<noteq> [] \<and> processing body = Some \<lparr>task_id = Some t\<rparr>
        \<and> data body = Some \<lparr>document_id = Some d\<rparr> \<and> mkPollKey d t \<notin> registry \<longrightarrow>
        handleUpload (Some f) (Some tk) (Responded 202 (Some body)) registry
          = ((insert (mkPollKey d t) registry, Some ((newClosure d t)\<lparr>awaiting := True\<rparr>)),
             [SetIsUploading True, AxiosPost ''/documents/upload'',
              SetUploadResult \<lparr>type = Some ''processing'',
                message = ''AI analysis in progress...''\<rparr>,
              AxiosGet (statusPath d),
              SetIsUploading False])"
    by (simp add: upload_defs templateString_def documentIdOf_def)
  from a b show ?thesis by blast
qed

theorem upload_handoff_witness:
  "(case handleUpload (Some ''lease.pdf'') None Threw {} of
      ((registry', c), es) \<Rightarrow>
        resultsSet es = [\<lparr>type = Some ''error'',
          message = ''Authentication required. Please log in to upload documents.''\<rparr>]
        \<and> uploadRequests es = 0)
   \<and> (case handleUpload (Some ''lease.pdf'') (Some ''tok'')
              (Responded 202 (Some \<lparr>processing = Some \<lparr>task_id = Some ''t1''\<rparr>,
                                     data = Some \<lparr>document_id = Some ''d7''\<rparr>\<rparr>)) {} of
      ((registry', c), es) \<Rightarrow>
        resultsSet es = [\<lparr>type = Some ''processing'', message = ''AI analysis in progress...''\<rparr>]
        \<and> registry' = {''d7-t1''}
        \<and> c = Some \<lparr>documentId = ''d7'', taskId = ''t1'', attempts = 0, currentDelay = 5000,
                     timeoutId = None, awaiting = True\<rparr>
        \<and> es = [SetIsUploading True, AxiosPost ''/documents/upload'',
                SetUploadResult \<lparr>type = Some ''processing'',
                  message = ''AI analysis in progress...''\<rparr>,
                AxiosGet ''/documents/d7/processing-status'',
                SetIsUploading False])
   \<and> (case handleUpload (Some ''lease.pdf'') (Some ''tok'')
              (Responded 200 (Some \<lparr>processing = None,
                                     data = Some \<lparr>document_id = Some ''d7''\<rparr>\<rparr>)) {} of
      ((registry', c), es) \<Rightarrow>
        resultsSet es = [\<lparr>type = Some ''success'',
          message = ''Document uploaded successfully!''\<rparr>]
        \<and> navigations es = [(''/document/d7/review'', 1500)] \<and> c = None)
   \<and> (case handleUpload (Some ''lease.pdf'') (Some ''tok'') Threw {} of
      ((registry', c), es) \<Rightarrow>
        resultsSet es = [\<lparr>type = Some ''error'', message = ''Upload failed. Try again.''\<rparr>]
        \<and> uploadRequests es = 1)"
  using upload_handoff
          [where f = "''lease.pdf''" and token = None and outcome = Threw and registry = "{}"
             and tk = "''tok''" and t = "''t1''" and d = "''d7''"
             and body = "\<lparr>processing = Some \<lparr>task_id = Some ''t1''\<rparr>,
                         data = Some \<lparr>document_id = Some ''d7''\<rparr>\<rparr>"]
        upload_handoff
          [where f = "''lease.pdf''" and token = "Some ''tok''"
             and outcome = "Responded 202 (Some \<lparr>processing = Some \<lparr>task_id = Some ''t1''\<rparr>,
                                                  data = Some \<lparr>document_id = Some ''d7''\<rparr>\<rparr>)"
             and registry = "{}" and tk = "''tok''" and t = "''t1''" and d = "''d7''"
             and body = "\<lparr>processing = Some \<lparr>task_id = Some ''t1''\<rparr>,
                         data = Some \<lparr>document_id = Some ''d7''\<rparr>\<rparr>"]
        upload_handoff
          [where f = "''lease.pdf''" and token = "Some ''tok''"
             and outcome = "Responded 200 (Some \<lparr>processing = None,
                                                  data = Some \<lparr>document_id = Some ''d7''\<rparr>\<rparr>)"
             and registry = "{}" and tk = "''tok''" and t = "''t1''" and d = "''d7''"
             and body = "\<lparr>processing = Some \<lparr>task_id = Some ''t1''\<rparr>,
                         data = Some \<lparr>document_id = Some ''d7''\<rparr>\<rparr>"]
        upload_handoff
          [where f = "''lease.pdf''" and token = "Some ''tok''" and outcome = Threw
             and registry = "{}" and tk = "''tok''" and t = "''t1''" and d = "''d7''"
             and body = "\<lparr>processing = Some \<lparr>task_id = Some ''t1''\<rparr>,
                         data = Some \<lparr>document_id = Some ''d7''\<rparr>\<rparr>"]
  by (simp add: upload_defs templateString_def documentIdOf_def mkPollKey_def statusPath_def)

end
